theory Spec2Isabelle
  imports Main "HOL-Library.Word"
begin

unbundle bit_operations_syntax

section \<open>Values shared by the whole program\<close>

text \<open>
  A Go \<open>[]byte\<close> and a Go \<open>string\<close> are both byte sequences; an Isabelle \<open>char\<close> is one
  byte, so both are \<open>char list\<close>.

  A Go \<open>error\<close> is an interface value that may be \<open>nil\<close>: it is an \<open>error option\<close>, with
  \<open>None\<close> for \<open>nil\<close>. The program builds errors in two ways (\<open>errors.New\<close>, \<open>fmt.Errorf\<close>)
  and receives the others from the operating system or from a library.
\<close>

type_synonym bytes = "char list"

datatype error =
    SysError string      \<comment> \<open>returned by the OS or a library call, with its message\<close>
  | ErrorsNew string     \<comment> \<open>\<open>errors.New(msg)\<close>\<close>
  | FmtErrorf string     \<comment> \<open>\<open>fmt.Errorf(...)\<close>, with the formatted message\<close>

fun Error :: "error \<Rightarrow> string" where
  "Error (SysError m) = m"
| "Error (ErrorsNew m) = m"
| "Error (FmtErrorf m) = m"

text \<open>\<open>strings.HasPrefix(s, prefix)\<close>: \<open>len(s) >= len(prefix) && s[:len(prefix)] == prefix\<close>.\<close>

definition HasPrefix :: "string \<Rightarrow> string \<Rightarrow> bool" where
  "HasPrefix s pre = (length s \<ge> length pre \<and> take (length pre) s = pre)"

section \<open>pacHandler\<close>

text \<open>
  \<open>type pacHandler struct { mu sync.Mutex; pacData []byte }\<close>. The mutex is a field of its
  own in the interleaving model of the store further down; a call that runs alone locks
  and unlocks it without waiting, so the sequential functions carry the data only.
\<close>

record pacHandler =
  pacData :: bytes

text \<open>
  The part of \<open>http.ResponseWriter\<close> the handler uses. \<open>WriteHeader\<close> fixes the status the
  first time it is called; \<open>Write\<close> first calls \<open>WriteHeader(200)\<close> when no header was
  written yet (also for an empty slice), then appends the data to the body.
\<close>

record responseWriter =
  wroteHeader :: bool
  status :: nat
  body :: bytes

definition newResponse :: responseWriter where
  "newResponse = \<lparr>wroteHeader = False, status = 0, body = []\<rparr>"

definition StatusOK :: nat where "StatusOK = 200"
definition StatusNotFound :: nat where "StatusNotFound = 404"

definition WriteHeader :: "nat \<Rightarrow> responseWriter \<Rightarrow> responseWriter" where
  "WriteHeader code w = (if wroteHeader w then w else w\<lparr>wroteHeader := True, status := code\<rparr>)"

definition Write :: "bytes \<Rightarrow> responseWriter \<Rightarrow> responseWriter" where
  "Write dat w = (let w1 = (if wroteHeader w then w else WriteHeader StatusOK w)
                  in w1\<lparr>body := body w1 @ dat\<rparr>)"

record request =
  RequestURI :: string

text \<open>\<open>func (h *pacHandler) ServeHTTP(w, r)\<close>, lines 88-97: the handler and the writer after the call.\<close>

definition ServeHTTP :: "pacHandler \<Rightarrow> responseWriter \<Rightarrow> request \<Rightarrow> pacHandler \<times> responseWriter" where
  "ServeHTTP h w r =
     (if HasPrefix (RequestURI r) ''/pac'' then
        (let dat = pacData h in (h, Write dat w))
      else (h, WriteHeader StatusNotFound w))"

text \<open>
  \<open>func (h *pacHandler) reload() error\<close>, lines 99-108. The argument is what
  \<open>ioutil.ReadFile(pacLocalPath)\<close> returns at the time of the call.
\<close>

definition reload :: "error + bytes \<Rightarrow> pacHandler \<Rightarrow> pacHandler \<times> error option" where
  "reload readFile h =
     (case readFile of
        Inl err \<Rightarrow> (h, Some (FmtErrorf (''Failed to reload pac: '' @ Error err)))
      | Inr dat \<Rightarrow> (h\<lparr>pacData := dat\<rparr>, None))"

section \<open>enableSystemProxy\<close>

text \<open>
  A toggle command is started and never waited for: the code calls \<open>Start()\<close> and reads
  \<open>out.Len()\<close> in the next statement, while a goroutine of \<open>os/exec\<close> copies what the command
  writes to its stdout and stderr (one pipe, since both are the same buffer) into \<open>out\<close>.
  So what the command prints and what the buffer holds at the check are two things.
  A launch is described by what \<open>Start()\<close> returns, by all that the command prints in its
  run, by how many bytes of that have arrived in the buffer when the caller reads
  \<open>out.Len()\<close>, and by how many more have arrived when it reads \<open>out.String()\<close> in the
  statement after; the buffer holds that prefix each time.
\<close>

record launched =
  started :: "error option"
  printed :: string
  arrived :: nat
  arrivedMore :: nat

definition bufferAtCheck :: "launched \<Rightarrow> string" where
  "bufferAtCheck r = take (arrived r) (printed r)"

definition bufferAtString :: "launched \<Rightarrow> string" where
  "bufferAtString r = take (arrived r + arrivedMore r) (printed r)"

text \<open>The operating system as a command meets it: the launch for an argument vector.\<close>

type_synonym launcher = "string list \<Rightarrow> launched"

text \<open>\<open>func enableSystemProxy(pacURL string) error\<close>, lines 110-123.\<close>

definition enableSystemProxy :: "launcher \<Rightarrow> string \<Rightarrow> string \<Rightarrow> error option" where
  "enableSystemProxy launch flagBinPath pacURL =
     (let brookCmd = launch [flagBinPath, ''systemproxy'', ''--url'', pacURL] in
      case started brookCmd of
        Some err \<Rightarrow> Some err
      | None \<Rightarrow>
          if length (bufferAtCheck brookCmd) \<noteq> 0
          then Some (ErrorsNew (bufferAtString brookCmd))
          else None)"

text \<open>
  Two launches of a command that starts and prints a diagnostic: in \<open>printsLate\<close> nothing of
  it has arrived in the buffer when its length is read (all of it arrives right after),
  in \<open>printsEarly\<close> all of it has. A \<open>silent\<close> command prints nothing.
\<close>

definition printsLate :: launcher where
  "printsLate = (\<lambda>argv. \<lparr>started = None, printed = ''flag provided but not defined'',
                          arrived = 0, arrivedMore = 29\<rparr>)"

definition printsEarly :: launcher where
  "printsEarly = (\<lambda>argv. \<lparr>started = None, printed = ''flag provided but not defined'',
                           arrived = 29, arrivedMore = 0\<rparr>)"

definition silent :: launcher where
  "silent = (\<lambda>argv. \<lparr>started = None, printed = [], arrived = 0, arrivedMore = 0\<rparr>)"

section \<open>searchExecutableFile\<close>

text \<open>
  \<open>brookBinFile\<close> is \<open>"brook"\<close>, and \<open>init()\<close> appends \<open>".exe"\<close> when \<open>runtime.GOOS\<close> is
  \<open>"windows"\<close>; \<open>pacLocalPath\<close> and \<open>defaultPAC\<close> are constants.
\<close>

definition brookBinFile :: "string \<Rightarrow> string" where
  "brookBinFile goos = ''brook'' @ (if goos = ''windows'' then ''.exe'' else [])"

definition pacLocalPath :: string where
  "pacLocalPath = ''./pac.txt''"

definition defaultPAC :: string where
  "defaultPAC = ''https://blackwhite.txthinking.com/white.pac''"

text \<open>
  \<open>filepath.Join(dir, name)\<close>: the elements from the first non-empty one on, joined with
  the separator of the operating system, then cleaned; the empty string when both are
  empty. \<open>filepath.Clean\<close> drops empty elements and \<open>.\<close>, lets \<open>..\<close> take away the element
  before it (at the root it is dropped, at the start of a relative path it stays), and
  gives \<open>.\<close> for an empty result. On Windows the backslash and the slash both separate
  elements and the backslash is written; volume names are not treated apart.
\<close>

definition Separator :: "string \<Rightarrow> char" where
  "Separator goos = (if goos = ''windows'' then CHR 0x5C else CHR ''/'')"

definition IsPathSeparator :: "string \<Rightarrow> char \<Rightarrow> bool" where
  "IsPathSeparator goos c =
     (if goos = ''windows'' then c = CHR 0x5C \<or> c = CHR ''/'' else c = CHR ''/'')"

fun elements :: "string \<Rightarrow> string \<Rightarrow> string list" where
  "elements goos [] = [] # []"
| "elements goos (c # cs) =
     (if IsPathSeparator goos c then [] # elements goos cs
      else (case elements goos cs of
              [] \<Rightarrow> [c] # []
            | e # es \<Rightarrow> (c # e) # es))"

text \<open>One element of the path, with the elements kept so far, newest first.\<close>

fun cleanElement :: "bool \<Rightarrow> string list \<Rightarrow> string \<Rightarrow> string list" where
  "cleanElement rooted kept e =
     (if e = [] \<or> e = ''.'' then kept
      else if e = ''..'' then
        (case kept of
           [] \<Rightarrow> if rooted then [] else [''..'']
         | newest # below \<Rightarrow> if newest = ''..'' then ''..'' # kept else below)
      else e # kept)"

fun joinElements :: "char \<Rightarrow> string list \<Rightarrow> string" where
  "joinElements sep [] = []"
| "joinElements sep [e] = e"
| "joinElements sep (e # es) = e @ [sep] @ joinElements sep es"

definition Clean :: "string \<Rightarrow> string \<Rightarrow> string" where
  "Clean goos path =
     (case path of
        [] \<Rightarrow> ''.''
      | c # _ \<Rightarrow>
          (let rooted = IsPathSeparator goos c;
               kept = foldl (cleanElement rooted) [] (elements goos path);
               out = joinElements (Separator goos) (rev kept)
           in if rooted then Separator goos # out
              else if out = [] then ''.'' else out))"

definition Join :: "string \<Rightarrow> string \<Rightarrow> string \<Rightarrow> string" where
  "Join goos dir name =
     (if dir \<noteq> [] then Clean goos (dir @ [Separator goos] @ name)
      else if name \<noteq> [] then Clean goos name
      else [])"

text \<open>
  The directory tree as \<open>ioutil.ReadDir\<close> reports it: reading a directory either fails or
  lists its entries (in the order \<open>ReadDir\<close> returns them); an entry is a directory
  (\<open>fi.IsDir()\<close>), with what reading it gives, or anything else, with its name.
\<close>

datatype dirent = File string | Dir string listing
  and listing = ReadErr error | Entries "dirent list"

text \<open>
  \<open>func searchExecutableFile(dir string) (string, error)\<close>, lines 49-70. \<open>rangeLoop\<close> is
  the \<open>for _, fi := range rd\<close> loop over the entries that are left.
\<close>

fun searchExecutableFile :: "string \<Rightarrow> string \<Rightarrow> listing \<Rightarrow> string \<times> error option"
  and rangeLoop :: "string \<Rightarrow> string \<Rightarrow> dirent list \<Rightarrow> string \<times> error option" where
  "searchExecutableFile goos dir (ReadErr err) = ([], Some err)"
| "searchExecutableFile goos dir (Entries rd) = rangeLoop goos dir rd"
| "rangeLoop goos dir [] = ([], None)"
| "rangeLoop goos dir (Dir name sub # rest) =
     (case searchExecutableFile goos (Join goos dir name) sub of
        (path, Some err) \<Rightarrow> ([], Some err)
      | (path, None) \<Rightarrow> if path \<noteq> [] then (path, None) else rangeLoop goos dir rest)"
| "rangeLoop goos dir (File name # rest) =
     (if name = brookBinFile goos then (Join goos dir name, None) else rangeLoop goos dir rest)"

text \<open>
  What a depth-first walk of the whole tree meets, in order and without stopping: a
  directory that cannot be read, or a file with the expected name. The search reaches a
  place of the tree exactly when nothing comes before it in this list.
\<close>

datatype visit = Failed error | Found string

fun visits :: "string \<Rightarrow> string \<Rightarrow> listing \<Rightarrow> visit list"
  and visitsEntries :: "string \<Rightarrow> string \<Rightarrow> dirent list \<Rightarrow> visit list" where
  "visits goos dir (ReadErr err) = [Failed err]"
| "visits goos dir (Entries rd) = visitsEntries goos dir rd"
| "visitsEntries goos dir [] = []"
| "visitsEntries goos dir (Dir name sub # rest) =
     visits goos (Join goos dir name) sub @ visitsEntries goos dir rest"
| "visitsEntries goos dir (File name # rest) =
     (if name = brookBinFile goos then [Found (Join goos dir name)] else [])
       @ visitsEntries goos dir rest"

definition firstVisit :: "visit list \<Rightarrow> string \<times> error option" where
  "firstVisit vs =
     (case vs of
        [] \<Rightarrow> ([], None)
      | Failed err # _ \<Rightarrow> ([], Some err)
      | Found p # _ \<Rightarrow> (p, None))"

section \<open>main\<close>

text \<open>
  \<open>main\<close> is one sequential function; what it does to the outside is a list of actions, in
  the order the statements run, and what the outside answers is a record of answers, one
  field for each call whose result \<open>main\<close> looks at. \<open>log.Fatal\<close> and \<open>log.Fatalf\<close> print and
  call \<open>os.Exit(1)\<close>: the action \<open>Fatal\<close> is the last of its trace, and deferred calls do not
  run.
\<close>

datatype signal = SIGHUP | SIGINT | SIGTERM | SIGQUIT

text \<open>How \<open>%v\<close> prints a signal, and how it prints an \<open>error\<close> that may be \<open>nil\<close>.\<close>

fun signalName :: "signal \<Rightarrow> string" where
  "signalName SIGHUP = ''hangup''"
| "signalName SIGINT = ''interrupt''"
| "signalName SIGTERM = ''terminated''"
| "signalName SIGQUIT = ''quit''"

definition fmtV :: "error option \<Rightarrow> string" where
  "fmtV err = (case err of None \<Rightarrow> ''<nil>'' | Some e \<Rightarrow> Error e)"

text \<open>
  The answers of the outside world. The flags are the values after \<open>flag.Parse()\<close>.
  \<open>absDir\<close> is \<open>filepath.Abs(filepath.Dir(os.Args[0]))\<close> and \<open>tree\<close> what \<open>ReadDir\<close> reports
  below it. \<open>statPac\<close> is the error of \<open>os.Stat(pacLocalPath)\<close>, with what \<open>os.IsExist\<close> says
  of it. \<open>httpGet\<close> is the error of \<open>http.Get\<close>, or else what \<open>ioutil.ReadAll(rsp.Body)\<close>
  returns. \<open>launch\<close> is the launch of a toggle command for its argument vector.
  \<open>childStart\<close> and \<open>childWait\<close> are what \<open>Start()\<close> and \<open>Wait()\<close> of the client
  command return (\<open>Wait\<close> returns when the client ends, by itself or killed through the
  cancelled context), \<open>childOut\<close> what the buffer holds then. \<open>wakeSignal\<close> is the signal
  the final \<open>select\<close> receives, \<open>None\<close> when the \<open>select\<close> takes the \<open>brookCh\<close> case.
\<close>

record world =
  flagServer :: string
  flagPassword :: string
  flagBinPath :: string
  flagPAC :: string
  flagUpdate :: bool
  GOOS :: string
  absDir :: "error + string"
  tree :: listing
  statPac :: "(error \<times> bool) option"
  httpGet :: "error + bytes \<times> error option"
  writeFile :: "error option"
  netListen :: "error + string"
  readFile :: "error + bytes"
  launch :: launcher
  newWatcher :: "error option"
  childStart :: "error option"
  childWait :: "error option"
  childOut :: string
  wakeSignal :: "signal option"

text \<open>
  The actions, in the order of their first use in \<open>main\<close>: \<open>GoServe\<close>, \<open>GoWatch\<close> and
  \<open>GoChild\<close> are the three \<open>go\<close> statements (lines 196, 228, 272), \<open>Start argv\<close> is
  \<open>Start()\<close> of a command with that argument vector, \<open>RecvBrookCh v\<close> a receive of \<open>v\<close>
  from \<open>brookCh\<close>, \<open>WatcherClose\<close> and \<open>BodyClose\<close> the deferred \<open>pacWatcher.Close()\<close> and
  \<open>rsp.Body.Close()\<close>,
  \<open>Replaced dat\<close> the assignment of \<open>dat\<close> to \<open>h.pacData\<close> by a \<open>reload\<close> of the watcher.
\<close>

datatype action =
    PrintDefaults
  | Log string
  | HttpGet string
  | WriteFile string bytes
  | NetListen string
  | GoServe
  | Start "string list"
  | GoWatch
  | WatcherAdd string
  | GoChild
  | SignalNotify
  | Cancel
  | RecvBrookCh "error option"
  | LockCloseMu
  | SetClosed
  | UnlockCloseMu
  | CloseListener
  | WatcherClose
  | BodyClose
  | Replaced bytes
  | BlockedForever
  | Fatal string
  | Return

text \<open>
  A stretch of \<open>main\<close>: its actions, and the values it leaves for the statements after it,
  or \<open>None\<close> when the process has ended in it.
\<close>

type_synonym 'a phase = "action list \<times> 'a option"

definition andThen :: "'a phase \<Rightarrow> ('a \<Rightarrow> 'b phase) \<Rightarrow> 'b phase" where
  "andThen m f =
     (case m of
        (t, None) \<Rightarrow> (t, None)
      | (t, Some x) \<Rightarrow> (case f x of (t', r) \<Rightarrow> (t @ t', r)))"

text \<open>\<open>func Exists(path string) bool\<close>, lines 72-81, on the result of \<open>os.Stat\<close>.\<close>

definition Exists :: "(error \<times> bool) option \<Rightarrow> bool" where
  "Exists st =
     (case st of
        Some (err, isExist) \<Rightarrow> if isExist then True else False
      | None \<Rightarrow> True)"

text \<open>Lines 134-137.\<close>

definition parseFlags :: "world \<Rightarrow> unit phase" where
  "parseFlags w =
     (if [] = flagServer w \<or> [] = flagPassword w then ([PrintDefaults, Return], None)
      else ([], Some ()))"

text \<open>Lines 139-155: the value of \<open>flagBinPath\<close> afterwards.\<close>

definition findBinary :: "world \<Rightarrow> string phase" where
  "findBinary w =
     (if [] = flagBinPath w then
        (case absDir w of
           Inl err \<Rightarrow> ([Fatal (''Can't get current diretory: '' @ Error err)], None)
         | Inr dir \<Rightarrow>
             (case searchExecutableFile (GOOS w) dir (tree w) of
                (path, Some err) \<Rightarrow> ([Fatal ''Can't find brook binary file''], None)
              | (path, None) \<Rightarrow>
                  if [] = path then ([Fatal ''brook binary file not found''], None)
                  else ([], Some path)))
      else ([], Some (flagBinPath w)))"

text \<open>
  Lines 156-181: whether \<open>defer rsp.Body.Close()\<close> has been registered, to run when \<open>main\<close>
  returns.
\<close>

definition downloadPac :: "world \<Rightarrow> bool phase" where
  "downloadPac w =
     (let pac = (if [] = flagPAC w then defaultPAC else flagPAC w) in
      if \<not> Exists (statPac w) \<or> flagUpdate w then
        (case httpGet w of
           Inl err \<Rightarrow>
             ([Log (''Downloading pac file from '' @ pacLocalPath @ '' ...''), HttpGet pac,
               Fatal (''Can't download pac file: '' @ Error err)], None)
         | Inr (dat, err) \<Rightarrow>
             if None \<noteq> err \<or> 0 = length dat then
               ([Log (''Downloading pac file from '' @ pacLocalPath @ '' ...''), HttpGet pac,
                 Fatal (''Download pac file error: '' @ fmtV err)], None)
             else
               (case writeFile w of
                  Some werr \<Rightarrow>
                    ([Log (''Downloading pac file from '' @ pacLocalPath @ '' ...''), HttpGet pac,
                      WriteFile pacLocalPath dat,
                      Fatal (''Save pac file error: '' @ Error werr)], None)
                | None \<Rightarrow>
                    ([Log (''Downloading pac file from '' @ pacLocalPath @ '' ...''), HttpGet pac,
                      WriteFile pacLocalPath dat], Some True)))
      else
        ([Log ''Using the cached pac file, run with -update argument to force update the pac file''],
         Some False))"

text \<open>Lines 184-194: the listener's address and the handler after its first \<open>reload\<close>.\<close>

definition listenAndLoad :: "world \<Rightarrow> (string \<times> pacHandler) phase" where
  "listenAndLoad w =
     (case netListen w of
        Inl err \<Rightarrow> ([NetListen ''127.0.0.1:0'', Fatal (''Serve http error: '' @ Error err)], None)
      | Inr addr \<Rightarrow>
          (case reload (readFile w) \<lparr>pacData = []\<rparr> of
             (ph, Some err) \<Rightarrow> ([NetListen ''127.0.0.1:0'', Fatal (Error err)], None)
           | (ph, None) \<Rightarrow> ([NetListen ''127.0.0.1:0''], Some (addr, ph))))"

text \<open>
  Lines 196-214: the \<open>go\<close> statement of the server goroutine, then \<open>enableSystemProxy\<close>,
  which starts the toggle command once.
\<close>

definition serveAndEnable :: "world \<Rightarrow> string \<Rightarrow> string \<Rightarrow> unit phase" where
  "serveAndEnable w bin addr =
     (case enableSystemProxy (launch w) bin (''http://'' @ addr @ ''/pac'') of
        Some err \<Rightarrow>
          ([GoServe, Log ''Enable system proxy ...'',
            Start [bin, ''systemproxy'', ''--url'', ''http://'' @ addr @ ''/pac''],
            Fatal (''Enable system proxy error: '' @ Error err)], None)
      | None \<Rightarrow>
          ([GoServe, Log ''Enable system proxy ...'',
            Start [bin, ''systemproxy'', ''--url'', ''http://'' @ addr @ ''/pac'']], Some ()))"

text \<open>
  Lines 216-226. \<open>pacWatcher, err := fsnotify.NewWatcher()\<close> assigns the variable \<open>err\<close>
  that line 184 declared; it is the last assignment to it.
\<close>

definition watchSetup :: "world \<Rightarrow> error option phase" where
  "watchSetup w =
     (let err = newWatcher w in
      case err of
        Some e \<Rightarrow> ([Fatal (''Can't watch pac file: '' @ Error e)], None)
      | None \<Rightarrow> ([], Some err))"

text \<open>
  The variables of \<open>main\<close> the later statements and the goroutines use; \<open>bodyOpen\<close> tells
  whether the response body of the download waits to be closed, \<open>mainErr\<close> is the
  variable \<open>err\<close> of \<open>main\<close>'s own scope.
\<close>

record locals =
  binPath :: string
  bodyOpen :: bool
  lsAddr :: string
  ph :: pacHandler
  mainErr :: "error option"

definition beforeEnable :: "world \<Rightarrow> (string \<times> bool \<times> string \<times> pacHandler) phase" where
  "beforeEnable w =
     andThen (parseFlags w) (\<lambda>_.
     andThen (findBinary w) (\<lambda>bin.
     andThen (downloadPac w) (\<lambda>opened.
     andThen (listenAndLoad w) (\<lambda>(addr, h). ([], Some (bin, opened, addr, h))))))"

definition startup :: "world \<Rightarrow> locals phase" where
  "startup w =
     andThen (beforeEnable w) (\<lambda>(bin, opened, addr, h).
     andThen (serveAndEnable w bin addr) (\<lambda>_.
     andThen (watchSetup w) (\<lambda>e.
       ([], Some \<lparr>binPath = bin, bodyOpen = opened, lsAddr = addr, ph = h, mainErr = e\<rparr>))))"

text \<open>
  The goroutine of lines 272-288: the values it sends on \<open>brookCh\<close>, given the variable
  \<open>err\<close> it captures from \<open>main\<close>, the result of \<open>Start()\<close> and the result of \<open>Wait()\<close>.
\<close>

definition brookGoroutine :: "error option \<Rightarrow> error option \<Rightarrow> error option \<Rightarrow> error option list" where
  "brookGoroutine err startErr waitErr =
     (if None \<noteq> startErr then [err] else [waitErr])"

text \<open>
  Lines 307-328, and the deferred calls when \<open>main\<close> returns, last registered first. The
  client has ended and \<open>Wait()\<close> has seen its output copied before \<open>out.Reset()\<close>, so at the
  check the buffer holds what has arrived of the removing command's output.
\<close>

definition teardown :: "world \<Rightarrow> locals \<Rightarrow> action list" where
  "teardown w l =
     [LockCloseMu, SetClosed, UnlockCloseMu, CloseListener, Log ''Disable system proxy ...'',
      Start [binPath l, ''systemproxy'', ''-r'']] @
     (let brookCmd = launch w [binPath l, ''systemproxy'', ''-r''] in
      case started brookCmd of
        Some e \<Rightarrow> [Fatal (''Disable system proxy error: '' @ Error e)]
      | None \<Rightarrow>
          if length (bufferAtCheck brookCmd) \<noteq> 0
          then [Fatal (''Disable system proxy error: '' @ bufferAtString brookCmd)]
          else [Log ''Bye ...'', WatcherClose] @ (if bodyOpen l then [BodyClose] else []) @
               [Return])"

text \<open>
  Lines 228-306 and the teardown: the three remaining \<open>go\<close> statements and registrations,
  then the \<open>select\<close>. A receive from \<open>brookCh\<close> takes the value the goroutine sent, and
  would wait for ever had it sent none.
\<close>

definition orchestrate :: "world \<Rightarrow> locals \<Rightarrow> action list" where
  "orchestrate w l =
     [GoWatch, WatcherAdd pacLocalPath, GoChild, SignalNotify] @
     (case brookGoroutine (mainErr l) (childStart w) (childWait w) of
        [] \<Rightarrow> (case wakeSignal w of
                 Some recvSig \<Rightarrow>
                   [Log (''Recv '' @ signalName recvSig @ '' signal, shutting down ...''), Cancel,
                    BlockedForever]
               | None \<Rightarrow> [BlockedForever])
      | sent # _ \<Rightarrow>
          (case wakeSignal w of
             Some recvSig \<Rightarrow>
               [Log (''Recv '' @ signalName recvSig @ '' signal, shutting down ...''), Cancel,
                RecvBrookCh sent] @ teardown w l
           | None \<Rightarrow>
               [RecvBrookCh sent,
                Log (''Brook occurs an error: '' @ fmtV sent @ '' ('' @ childOut w @ '')''),
                Cancel] @ teardown w l))"

definition main :: "world \<Rightarrow> action list" where
  "main w = fst (andThen (startup w) (\<lambda>l. (orchestrate w l, None :: unit option)))"

text \<open>
  Concrete worlds: a run that ends by \<open>SIGINT\<close>, and variations of it. In
  \<open>worldEnableOutput\<close> what the toggle command prints is in the buffer when it is read, in
  \<open>worldEnableLate\<close> it is not there yet.
\<close>

definition world0 :: world where
  "world0 = \<lparr>flagServer = ''example.org:9999'', flagPassword = ''secret'', flagBinPath = [],
         flagPAC = [], flagUpdate = False, GOOS = ''linux'',
         absDir = Inr ''/opt/tool'', tree = Entries [File ''brooktool'', File ''brook''],
         statPac = Some (SysError ''stat ./pac.txt: no such file or directory'', False),
         httpGet = Inr (''function FindProxyForURL'', None), writeFile = None,
         netListen = Inr ''127.0.0.1:40123'', readFile = Inr ''function FindProxyForURL'',
         launch = silent, newWatcher = None,
         childStart = None, childWait = Some (SysError ''signal: killed''), childOut = [],
         wakeSignal = Some SIGINT\<rparr>"

definition worldEnableOutput :: world where
  "worldEnableOutput = world0\<lparr>launch := printsEarly\<rparr>"

definition worldEnableLate :: world where
  "worldEnableLate = world0\<lparr>launch := printsLate\<rparr>"

definition worldEmptyDownload :: world where
  "worldEmptyDownload = world0\<lparr>httpGet := Inr ([], None)\<rparr>"

definition worldReadError :: world where
  "worldReadError = world0\<lparr>httpGet := Inr (''function'', Some (SysError ''unexpected EOF''))\<rparr>"

definition worldChildStartFails :: world where
  "worldChildStartFails =
     world0\<lparr>childStart := Some (SysError ''fork/exec /opt/tool/brook: permission denied''),
            wakeSignal := None\<rparr>"

definition worldChildDies :: world where
  "worldChildDies = world0\<lparr>childWait := Some (SysError ''exit status 1''), wakeSignal := None\<rparr>"

text \<open>The actions that lines 125-226 can perform and the later lines cannot.\<close>

fun startup_action :: "action \<Rightarrow> bool" where
  "startup_action (Log s) = True"
| "startup_action (HttpGet s) = True"
| "startup_action (WriteFile p d) = True"
| "startup_action (NetListen a) = True"
| "startup_action GoServe = True"
| "startup_action (Start argv) = (length argv = 4)"
| "startup_action a = False"

section \<open>The file watcher and the shutdown gate\<close>

text \<open>
  The goroutine of lines 228-267 and the statements of \<open>main\<close> from the final \<open>select\<close> to
  \<open>closeMu.Unlock()\<close> (lines 294-309) run at the same time and share \<open>closed\<close>, \<open>closeMu\<close>,
  the context and the handler. They are modelled as two threads that take turns, one
  statement at a time; a schedule is the list of the statements in the order they run,
  each with what the outside world answers to it. \<open>closeMu\<close> is the thread that holds it,
  and \<open>Lock()\<close> can run only when no thread does. Log output is left out.
\<close>

text \<open>
  \<open>fsnotify.Event\<close> has a name and a bit set of operations; \<open>fsnotify.Write\<close> is the second
  bit (\<open>Create = 1 << iota\<close>, then \<open>Write\<close>).
\<close>

record event =
  Name :: string
  Op :: "32 word"

definition Write_op :: "32 word" where
  "Write_op = 2"

text \<open>\<open>%d\<close> of \<open>fmt.Sprintf\<close> for an \<open>int64\<close>: the decimal digits, with a minus sign when negative.\<close>

definition digit :: "nat \<Rightarrow> char" where
  "digit d =
     (if d = 0 then CHR ''0'' else if d = 1 then CHR ''1'' else if d = 2 then CHR ''2''
      else if d = 3 then CHR ''3'' else if d = 4 then CHR ''4'' else if d = 5 then CHR ''5''
      else if d = 6 then CHR ''6'' else if d = 7 then CHR ''7'' else if d = 8 then CHR ''8''
      else CHR ''9'')"

function digits :: "nat \<Rightarrow> string" where
  "digits n = (if n < 10 then [digit n] else digits (n div 10) @ [digit (n mod 10)])"
  by pat_completeness auto
termination
  by (relation "measure id") auto

declare digits.simps [simp del]

definition Itoa :: "int \<Rightarrow> string" where
  "Itoa i = (if i < 0 then ''-'' @ digits (nat (- i)) else digits (nat i))"

text \<open>
  The place of each thread in its code. For the watcher: \<open>WSelect\<close> the \<open>select\<close> of line
  230, \<open>WSleep\<close> line 235, \<open>WDrain\<close> the inner \<open>select\<close> of lines 236-239, \<open>WLock\<close> line 241,
  \<open>WCheck\<close> line 242, \<open>WUnlockReturn\<close> lines 243-244, \<open>WReload\<close> line 246, \<open>WUnlockBreak\<close>
  lines 248-249, \<open>WEnable\<close> line 251, \<open>WUnlock\<close> line 256, \<open>WReturned\<close> after a \<open>return\<close>.
  For \<open>main\<close>: \<open>MSelect\<close> the \<open>select\<close> of line 294, \<open>MLock\<close> line 307, \<open>MSet\<close> line 308,
  \<open>MUnlock\<close> line 309, \<open>MClose\<close> line 310 and after.
\<close>

datatype thread = Watcher | Main

datatype wpc = WSelect | WSleep | WDrain | WLock | WCheck | WUnlockReturn | WReload
  | WUnlockBreak | WEnable | WUnlock | WReturned

datatype mpc = MSelect | MLock | MSet | MUnlock | MClose

text \<open>
  The shared state: \<open>Events\<close> holds the events that fsnotify has delivered and the watcher
  has not received yet, oldest first; \<open>acts\<close> lists what the watcher has done to the
  outside (\<open>Replaced\<close> for a stored blob, \<open>Start\<close> for a toggle command).
\<close>

record gate =
  wpc :: wpc
  mpc :: mpc
  closeMu :: "thread option"
  closed :: bool
  ctxDone :: bool
  Events :: "event list"
  handler :: pacHandler
  acts :: "action list"

text \<open>
  The statements of a schedule. \<open>Arrive\<close> is fsnotify delivering an event. \<open>WRecvEvent\<close>,
  \<open>WRecvError\<close> and \<open>WRecvDone\<close> are the three cases of the watcher's \<open>select\<close>. \<open>WReloadStep\<close>
  carries what \<open>ioutil.ReadFile\<close> returns, \<open>WEnableStep\<close> what \<open>time.Now().Unix()\<close> returns
  (what \<open>enableSystemProxy\<close> returns is only logged). \<open>MWake\<close> is the \<open>select\<close> of \<open>main\<close> with the branch
  it takes, up to and including \<open>cancel()\<close> (and, after a signal, the receive from
  \<open>brookCh\<close>, which touches nothing of this state).
\<close>

datatype label =
    Arrive event
  | WRecvEvent
  | WRecvError error
  | WRecvDone
  | WSleepEnd
  | WDrainStep
  | WLockStep
  | WCheckStep
  | WUnlockReturnStep
  | WReloadStep "error + bytes"
  | WUnlockBreakStep
  | WEnableStep int
  | WUnlockStep
  | MWake
  | MLockStep
  | MSetStep
  | MUnlockStep

text \<open>
  One statement: the state after it, or \<open>None\<close> when the statement cannot run in this
  state (the thread is elsewhere, the mutex is held, the channel is empty). The \<open>break\<close>
  of line 249 leaves the \<open>select\<close>, so the loop goes on.
\<close>

fun step :: "locals \<Rightarrow> label \<Rightarrow> gate \<Rightarrow> gate option" where
  "step l (Arrive e) s = Some (s\<lparr>Events := Events s @ [e]\<rparr>)"
| "step l WRecvEvent s =
     (if wpc s = WSelect then
        (case Events s of
           [] \<Rightarrow> None
         | event # rest \<Rightarrow>
             if Op event AND Write_op = Write_op
             then Some (s\<lparr>Events := rest, wpc := WSleep\<rparr>)
             else Some (s\<lparr>Events := rest\<rparr>))
      else None)"
| "step l (WRecvError watchErr) s = (if wpc s = WSelect then Some s else None)"
| "step l WRecvDone s =
     (if wpc s = WSelect \<and> ctxDone s then Some (s\<lparr>wpc := WReturned\<rparr>) else None)"
| "step l WSleepEnd s = (if wpc s = WSleep then Some (s\<lparr>wpc := WDrain\<rparr>) else None)"
| "step l WDrainStep s =
     (if wpc s = WDrain then
        (case Events s of
           [] \<Rightarrow> Some (s\<lparr>wpc := WLock\<rparr>)
         | pending # rest \<Rightarrow> Some (s\<lparr>Events := rest, wpc := WLock\<rparr>))
      else None)"
| "step l WLockStep s =
     (if wpc s = WLock \<and> closeMu s = None
      then Some (s\<lparr>closeMu := Some Watcher, wpc := WCheck\<rparr>) else None)"
| "step l WCheckStep s =
     (if wpc s = WCheck
      then (if closed s then Some (s\<lparr>wpc := WUnlockReturn\<rparr>) else Some (s\<lparr>wpc := WReload\<rparr>))
      else None)"
| "step l WUnlockReturnStep s =
     (if wpc s = WUnlockReturn then Some (s\<lparr>closeMu := None, wpc := WReturned\<rparr>) else None)"
| "step l (WReloadStep fileRead) s =
     (if wpc s = WReload then
        (case reload fileRead (handler s) of
           (h, Some err) \<Rightarrow> Some (s\<lparr>handler := h, wpc := WUnlockBreak\<rparr>)
         | (h, None) \<Rightarrow>
             Some (s\<lparr>handler := h, acts := acts s @ [Replaced (pacData h)], wpc := WEnable\<rparr>))
      else None)"
| "step l WUnlockBreakStep s =
     (if wpc s = WUnlockBreak then Some (s\<lparr>closeMu := None, wpc := WSelect\<rparr>) else None)"
| "step l (WEnableStep now) s =
     (if wpc s = WEnable then
        Some (s\<lparr>acts := acts s @
                 [Start [binPath l, ''systemproxy'', ''--url'',
                         ''http://'' @ lsAddr l @ ''/pac?ts='' @ Itoa now]],
               wpc := WUnlock\<rparr>)
      else None)"
| "step l WUnlockStep s =
     (if wpc s = WUnlock then Some (s\<lparr>closeMu := None, wpc := WSelect\<rparr>) else None)"
| "step l MWake s =
     (if mpc s = MSelect then Some (s\<lparr>ctxDone := True, mpc := MLock\<rparr>) else None)"
| "step l MLockStep s =
     (if mpc s = MLock \<and> closeMu s = None
      then Some (s\<lparr>closeMu := Some Main, mpc := MSet\<rparr>) else None)"
| "step l MSetStep s =
     (if mpc s = MSet then Some (s\<lparr>closed := True, mpc := MUnlock\<rparr>) else None)"
| "step l MUnlockStep s =
     (if mpc s = MUnlock then Some (s\<lparr>closeMu := None, mpc := MClose\<rparr>) else None)"

fun run :: "locals \<Rightarrow> label list \<Rightarrow> gate \<Rightarrow> gate option" where
  "run l [] s = Some s"
| "run l (a # as) s = (case step l a s of None \<Rightarrow> None | Some s' \<Rightarrow> run l as s')"

definition gateInit :: "locals \<Rightarrow> event list \<Rightarrow> gate" where
  "gateInit l evs =
     \<lparr>wpc = WSelect, mpc = MSelect, closeMu = None, closed = False, ctxDone = False,
      Events = evs, handler = ph l, acts = []\<rparr>"

text \<open>
  The places where a thread is between its \<open>Lock()\<close> and its \<open>Unlock()\<close>; the places where
  the watcher has passed the check and has its reload or its reapply still to do; the
  places of \<open>main\<close> from which \<open>closed\<close> is set.
\<close>

fun holding :: "wpc \<Rightarrow> bool" where
  "holding WCheck = True"
| "holding WUnlockReturn = True"
| "holding WReload = True"
| "holding WUnlockBreak = True"
| "holding WEnable = True"
| "holding WUnlock = True"
| "holding p = False"

fun acting :: "wpc \<Rightarrow> bool" where
  "acting WReload = True"
| "acting WEnable = True"
| "acting p = False"

fun mholding :: "mpc \<Rightarrow> bool" where
  "mholding MSet = True"
| "mholding MUnlock = True"
| "mholding p = False"

fun mclosed :: "mpc \<Rightarrow> bool" where
  "mclosed MUnlock = True"
| "mclosed MClose = True"
| "mclosed p = False"

definition gate_inv :: "gate \<Rightarrow> bool" where
  "gate_inv s =
     ((holding (wpc s) \<longleftrightarrow> closeMu s = Some Watcher) \<and>
      (mholding (mpc s) \<longleftrightarrow> closeMu s = Some Main) \<and>
      (closed s \<longrightarrow> \<not> acting (wpc s)) \<and>
      (closed s \<longleftrightarrow> mclosed (mpc s)))"

text \<open>
  Concrete runs. In \<open>burst3\<close> three write events reach the watcher within one sleep: the
  first wakes it, the other two arrive before the sleep ends; \<open>burst1\<close> and \<open>burst2\<close> are
  the bursts of one and of two events, run until the watcher is back at its \<open>select\<close>. In \<open>closing\<close> the gate is
  closed while the watcher sleeps on the first of three queued events.
\<close>

definition write_ev :: event where
  "write_ev = \<lparr>Name = ''./pac.txt'', Op = 2\<rparr>"

definition locals0 :: locals where
  "locals0 = \<lparr>binPath = ''/opt/tool/brook'', bodyOpen = True, lsAddr = ''127.0.0.1:40123'',
              ph = \<lparr>pacData = ''v0''\<rparr>, mainErr = None\<rparr>"

definition burst3 :: "label list" where
  "burst3 =
     [Arrive write_ev, WRecvEvent, Arrive write_ev, Arrive write_ev, WSleepEnd, WDrainStep,
      WLockStep, WCheckStep, WReloadStep (Inr ''v1''), WEnableStep 1700000000,
      WUnlockStep,
      WRecvEvent, WSleepEnd, WDrainStep,
      WLockStep, WCheckStep, WReloadStep (Inr ''v2''), WEnableStep 1700000001,
      WUnlockStep]"

definition burst1 :: "label list" where
  "burst1 =
     [Arrive write_ev, WRecvEvent, WSleepEnd, WDrainStep,
      WLockStep, WCheckStep, WReloadStep (Inr ''v1''), WEnableStep 1700000000,
      WUnlockStep]"

definition burst2 :: "label list" where
  "burst2 =
     [Arrive write_ev, WRecvEvent, Arrive write_ev, WSleepEnd, WDrainStep,
      WLockStep, WCheckStep, WReloadStep (Inr ''v1''), WEnableStep 1700000000,
      WUnlockStep]"

definition queued3 :: "event list" where
  "queued3 = [write_ev, write_ev, write_ev]"

definition closing :: "label list" where
  "closing = [WRecvEvent, MWake, WSleepEnd, MLockStep, WDrainStep, MSetStep, MUnlockStep]"

definition late :: "label list" where
  "late = [WLockStep, WCheckStep, WUnlockReturnStep]"

section \<open>The stored blob under its mutex\<close>

text \<open>
  \<open>h.pacData\<close> is a slice: three machine words (pointer, length, capacity) for an array
  that \<open>ioutil.ReadFile\<close> allocated and nothing writes afterwards. An assignment of a
  slice copies the three words one after the other, so without the mutex a reader
  could pair the pointer of one blob with the length of another. The model runs any
  number of goroutines, each in \<open>reload\<close> (lines 104-106) or in \<open>ServeHTTP\<close> (lines 90-93),
  one word access or one mutex operation at a time; \<open>mu\<close> is the goroutine that holds
  \<open>h.mu\<close>.
\<close>

record slice =
  ptr :: nat
  len :: nat
  cap :: nat

text \<open>
  The place of a goroutine: \<open>RelLock\<close> before line 104 with the slice that \<open>ReadFile\<close>
  returned, \<open>RelPtr\<close>, \<open>RelLen\<close> and \<open>RelCap\<close> in line 105 before the word of that name is
  written, \<open>RelUnlock\<close> before line 106; \<open>SrvLock\<close> before line 90, \<open>SrvPtr\<close>, \<open>SrvLen\<close> and
  \<open>SrvCap\<close> in line 91 before the word of that name is read, with the words read so far,
  \<open>SrvUnlock\<close> before line 92 and \<open>SrvWrite\<close> before line 93, with the local \<open>data\<close>.
\<close>

datatype tstate =
    Idle
  | RelLock slice
  | RelPtr slice
  | RelLen slice
  | RelCap slice
  | RelUnlock slice
  | SrvLock
  | SrvPtr
  | SrvLen nat
  | SrvCap nat nat
  | SrvUnlock slice
  | SrvWrite slice

text \<open>
  \<open>completed\<close> lists the arguments of the calls of \<open>reload\<close> that have stored their slice
  and released the mutex, in that order.
\<close>

record store =
  mu :: "nat option"
  shared :: slice
  threads :: "nat \<Rightarrow> tstate"
  completed :: "slice list"

text \<open>
  A schedule names the goroutine that moves: it enters \<open>reload\<close> with a new slice, enters
  \<open>ServeHTTP\<close> on a \<open>/pac\<close> request, or runs its next access.
\<close>

datatype slabel = CallReload nat slice | CallServe nat | Next nat

fun sstep :: "slabel \<Rightarrow> store \<Rightarrow> store option" where
  "sstep (CallReload t dat) s =
     (if threads s t = Idle then Some (s\<lparr>threads := (threads s)(t := RelLock dat)\<rparr>) else None)"
| "sstep (CallServe t) s =
     (if threads s t = Idle then Some (s\<lparr>threads := (threads s)(t := SrvLock)\<rparr>) else None)"
| "sstep (Next t) s =
     (case threads s t of
        Idle \<Rightarrow> None
      | RelLock dat \<Rightarrow>
          if mu s = None then Some (s\<lparr>mu := Some t, threads := (threads s)(t := RelPtr dat)\<rparr>)
          else None
      | RelPtr dat \<Rightarrow>
          Some (s\<lparr>shared := (shared s)\<lparr>ptr := ptr dat\<rparr>, threads := (threads s)(t := RelLen dat)\<rparr>)
      | RelLen dat \<Rightarrow>
          Some (s\<lparr>shared := (shared s)\<lparr>len := len dat\<rparr>, threads := (threads s)(t := RelCap dat)\<rparr>)
      | RelCap dat \<Rightarrow>
          Some (s\<lparr>shared := (shared s)\<lparr>cap := cap dat\<rparr>, threads := (threads s)(t := RelUnlock dat)\<rparr>)
      | RelUnlock dat \<Rightarrow>
          Some (s\<lparr>mu := None, threads := (threads s)(t := Idle), completed := completed s @ [dat]\<rparr>)
      | SrvLock \<Rightarrow>
          if mu s = None then Some (s\<lparr>mu := Some t, threads := (threads s)(t := SrvPtr)\<rparr>)
          else None
      | SrvPtr \<Rightarrow> Some (s\<lparr>threads := (threads s)(t := SrvLen (ptr (shared s)))\<rparr>)
      | SrvLen p \<Rightarrow> Some (s\<lparr>threads := (threads s)(t := SrvCap p (len (shared s)))\<rparr>)
      | SrvCap p n \<Rightarrow>
          Some (s\<lparr>threads := (threads s)(t := SrvUnlock \<lparr>ptr = p, len = n, cap = cap (shared s)\<rparr>)\<rparr>)
      | SrvUnlock dat \<Rightarrow> Some (s\<lparr>mu := None, threads := (threads s)(t := SrvWrite dat)\<rparr>)
      | SrvWrite dat \<Rightarrow> Some (s\<lparr>threads := (threads s)(t := Idle)\<rparr>))"

fun srun :: "slabel list \<Rightarrow> store \<Rightarrow> store option" where
  "srun [] s = Some s"
| "srun (a # as) s = (case sstep a s of None \<Rightarrow> None | Some s' \<Rightarrow> srun as s')"

definition storeInit :: "slice \<Rightarrow> store" where
  "storeInit d0 = \<lparr>mu = None, shared = d0, threads = (\<lambda>t. Idle), completed = []\<rparr>"

text \<open>
  The places between \<open>Lock()\<close> and \<open>Unlock()\<close>; a slice is whole when it is the first value
  or the argument of a completed \<open>reload\<close>; what holds of the shared words and of the
  words a goroutine has copied, at each place.
\<close>

fun lockheld :: "tstate \<Rightarrow> bool" where
  "lockheld (RelPtr d) = True"
| "lockheld (RelLen d) = True"
| "lockheld (RelCap d) = True"
| "lockheld (RelUnlock d) = True"
| "lockheld SrvPtr = True"
| "lockheld (SrvLen p) = True"
| "lockheld (SrvCap p n) = True"
| "lockheld (SrvUnlock d) = True"
| "lockheld ts = False"

definition whole :: "slice \<Rightarrow> store \<Rightarrow> slice \<Rightarrow> bool" where
  "whole d0 s d = (d = d0 \<or> d \<in> set (completed s))"

fun tinv :: "slice \<Rightarrow> store \<Rightarrow> tstate \<Rightarrow> bool" where
  "tinv d0 s (RelPtr d) = whole d0 s (shared s)"
| "tinv d0 s (RelLen d) = (ptr (shared s) = ptr d)"
| "tinv d0 s (RelCap d) = (ptr (shared s) = ptr d \<and> len (shared s) = len d)"
| "tinv d0 s (RelUnlock d) = (shared s = d)"
| "tinv d0 s SrvPtr = whole d0 s (shared s)"
| "tinv d0 s (SrvLen p) = (whole d0 s (shared s) \<and> p = ptr (shared s))"
| "tinv d0 s (SrvCap p n) = (whole d0 s (shared s) \<and> p = ptr (shared s) \<and> n = len (shared s))"
| "tinv d0 s (SrvUnlock d) = (whole d0 s d \<and> d = shared s)"
| "tinv d0 s (SrvWrite d) = whole d0 s d"
| "tinv d0 s ts = True"

definition store_inv :: "slice \<Rightarrow> store \<Rightarrow> bool" where
  "store_inv d0 s =
     ((\<forall>t. lockheld (threads s t) \<longleftrightarrow> mu s = Some t) \<and>
      (\<forall>t. tinv d0 s (threads s t)) \<and>
      (mu s = None \<longrightarrow> whole d0 s (shared s)))"

text \<open>The bytes a slice stands for, in a memory that maps a pointer to the array behind it.\<close>

definition contents :: "(nat \<Rightarrow> bytes) \<Rightarrow> slice \<Rightarrow> bytes" where
  "contents mem sl = take (len sl) (mem (ptr sl))"

text \<open>
  Two concrete runs of goroutine 0, which stores a new blob, and goroutine 1, which serves
  a request. In \<open>storeFirst\<close> the store gets the mutex first and the handler copies the new
  slice after it. In \<open>serveFirst\<close> the handler gets the mutex first, and holds its copy of
  the first slice while the store has written two of its three words.
\<close>

definition slice0 :: slice where
  "slice0 = \<lparr>ptr = 4096, len = 120, cap = 512\<rparr>"

definition slice1 :: slice where
  "slice1 = \<lparr>ptr = 8192, len = 80, cap = 1024\<rparr>"

definition storeFirst :: "slabel list" where
  "storeFirst =
     [CallReload 0 slice1, CallServe 1, Next 0, Next 0, Next 0, Next 0, Next 0,
      Next 1, Next 1, Next 1, Next 1, Next 1]"

definition serveFirst :: "slabel list" where
  "serveFirst =
     [CallServe 1, Next 1, CallReload 0 slice1, Next 1, Next 1, Next 1, Next 1,
      Next 0, Next 0, Next 0]"

section \<open>Properties of the handler\<close>

lemma HasPrefix_iff_append: "HasPrefix s pre \<longleftrightarrow> (\<exists>rest. s = pre @ rest)"
proof
  assume "HasPrefix s pre"
  then have "s = pre @ drop (length pre) s"
    by (metis HasPrefix_def append_take_drop_id)
  then show "\<exists>rest. s = pre @ rest" ..
next
  assume "\<exists>rest. s = pre @ rest"
  then show "HasPrefix s pre" by (auto simp: HasPrefix_def)
qed

text \<open>
  Claim C6. A request whose URI begins with \<open>/pac\<close>, whatever follows (a query string
  with a timestamp, say), is answered on a fresh writer with status 200 and a body that
  is exactly the stored blob; every other URI is answered with status 404 and an empty
  body; in both cases the stored blob is what it was.
\<close>

theorem ServeHTTP_pac_or_not_found:
  "((\<exists>rest. RequestURI r = ''/pac'' @ rest) \<longrightarrow>
      status (snd (ServeHTTP h newResponse r)) = 200 \<and>
      body (snd (ServeHTTP h newResponse r)) = pacData h) \<and>
   (\<not> (\<exists>rest. RequestURI r = ''/pac'' @ rest) \<longrightarrow>
      status (snd (ServeHTTP h newResponse r)) = 404 \<and>
      body (snd (ServeHTTP h newResponse r)) = []) \<and>
   fst (ServeHTTP h newResponse r) = h"
  unfolding HasPrefix_iff_append [symmetric]
  by (simp add: ServeHTTP_def Write_def WriteHeader_def newResponse_def
      StatusOK_def StatusNotFound_def Let_def)

theorem ServeHTTP_pac_or_not_found_witness:
  "(\<exists>rest. ''/pac?ts=1700000000'' = ''/pac'' @ rest) \<and>
   status (snd (ServeHTTP \<lparr>pacData = ''function FindProxyForURL''\<rparr> newResponse
                  \<lparr>RequestURI = ''/pac?ts=1700000000''\<rparr>)) = 200 \<and>
   body (snd (ServeHTTP \<lparr>pacData = ''function FindProxyForURL''\<rparr> newResponse
                  \<lparr>RequestURI = ''/pac?ts=1700000000''\<rparr>)) = ''function FindProxyForURL'' \<and>
   \<not> (\<exists>rest. ''/index.html'' = ''/pac'' @ rest) \<and>
   status (snd (ServeHTTP \<lparr>pacData = ''function FindProxyForURL''\<rparr> newResponse
                  \<lparr>RequestURI = ''/index.html''\<rparr>)) = 404 \<and>
   body (snd (ServeHTTP \<lparr>pacData = ''function FindProxyForURL''\<rparr> newResponse
                  \<lparr>RequestURI = ''/index.html''\<rparr>)) = []"
  using ServeHTTP_pac_or_not_found
          [of "\<lparr>RequestURI = ''/pac?ts=1700000000''\<rparr>" "\<lparr>pacData = ''function FindProxyForURL''\<rparr>"]
        ServeHTTP_pac_or_not_found
          [of "\<lparr>RequestURI = ''/index.html''\<rparr>" "\<lparr>pacData = ''function FindProxyForURL''\<rparr>"]
  by simp

section \<open>Properties of enableSystemProxy\<close>

text \<open>
  What the function returns depends on the part of the output that has arrived, never
  on the rest: it returns nil exactly when the command starts and the buffer is still
  empty at the check, whatever the command goes on to print.
\<close>

lemma enableSystemProxy_nil_iff:
  "enableSystemProxy sys bin url = None \<longleftrightarrow>
     started (sys [bin, ''systemproxy'', ''--url'', url]) = None \<and>
     (arrived (sys [bin, ''systemproxy'', ''--url'', url]) = 0 \<or>
      printed (sys [bin, ''systemproxy'', ''--url'', url]) = [])"
  by (auto simp: enableSystemProxy_def bufferAtCheck_def Let_def split: option.splits)

lemma enableSystemProxy_error_message:
  "enableSystemProxy sys bin url = Some e \<Longrightarrow>
     started (sys [bin, ''systemproxy'', ''--url'', url]) = Some e \<or>
     (started (sys [bin, ''systemproxy'', ''--url'', url]) = None \<and>
      Error e = bufferAtString (sys [bin, ''systemproxy'', ''--url'', url]) \<and>
      bufferAtCheck (sys [bin, ''systemproxy'', ''--url'', url]) \<noteq> [])"
  by (auto simp: enableSystemProxy_def Let_def split: option.splits if_splits)

text \<open>
  Claim C5 asks that output of the toggle command is surfaced as an error whose message
  is that output. The function reads the buffer right after \<open>Start()\<close> and does not wait
  for the command. In this launch the command starts and prints a diagnostic, nothing
  of which has arrived in the buffer when its length is read: the function returns nil.
\<close>

theorem enableSystemProxy_misses_late_output:
  "started (printsLate [''/opt/tool/brook'', ''systemproxy'', ''--url'',
                        ''http://127.0.0.1:40123/pac'']) = None \<and>
   printed (printsLate [''/opt/tool/brook'', ''systemproxy'', ''--url'',
                        ''http://127.0.0.1:40123/pac'']) = ''flag provided but not defined'' \<and>
   bufferAtCheck (printsLate [''/opt/tool/brook'', ''systemproxy'', ''--url'',
                              ''http://127.0.0.1:40123/pac'']) = [] \<and>
   enableSystemProxy printsLate ''/opt/tool/brook'' ''http://127.0.0.1:40123/pac'' = None"
  by (simp add: enableSystemProxy_def bufferAtCheck_def printsLate_def)

section \<open>Properties of searchExecutableFile\<close>

lemma Clean_nonempty: "Clean goos path \<noteq> []"
  by (auto simp: Clean_def Let_def split: list.splits)

lemma Join_bin_nonempty: "Join goos dir (brookBinFile goos') \<noteq> []"
  by (simp add: Join_def brookBinFile_def Clean_nonempty)

text \<open>The search returns what the walk meets first; a found path is never empty.\<close>

lemma search_firstVisit:
  "searchExecutableFile goos dir t = firstVisit (visits goos dir t) \<and>
     (\<forall>p later. visits goos dir t = Found p # later \<longrightarrow> p \<noteq> [])"
  "rangeLoop goos dir rd = firstVisit (visitsEntries goos dir rd) \<and>
     (\<forall>p later. visitsEntries goos dir rd = Found p # later \<longrightarrow> p \<noteq> [])"
proof (induction goos dir t and goos dir rd rule: searchExecutableFile_rangeLoop.induct)
  case (1 goos dir err)
  then show ?case by (simp add: firstVisit_def)
next
  case (2 goos dir rd)
  then show ?case by simp
next
  case (3 goos dir)
  then show ?case by (simp add: firstVisit_def)
next
  case (4 goos dir name sub rest)
  show ?case
  proof (cases "visits goos (Join goos dir name) sub")
    case Nil
    with 4 show ?thesis by (simp add: firstVisit_def)
  next
    case (Cons v vs)
    with 4 show ?thesis by (cases v) (auto simp add: firstVisit_def)
  qed
next
  case (5 goos dir name rest)
  then show ?case by (simp add: firstVisit_def Join_bin_nonempty)
qed

text \<open>
  Claim C10. When the first thing the walk meets is a directory whose read fails, the
  search returns that error with an empty path, whatever would have come later (a file
  with the expected name in a later sibling included); when the tree holds no failing
  read and no file with the expected name, it returns an empty path and a nil error.
\<close>

theorem searchExecutableFile_read_error_aborts:
  "(\<forall>err later. visits goos dir t = Failed err # later \<longrightarrow>
      searchExecutableFile goos dir t = ([], Some err)) \<and>
   (visits goos dir t = [] \<longrightarrow> searchExecutableFile goos dir t = ([], None))"
  by (simp add: search_firstVisit(1) firstVisit_def)

theorem searchExecutableFile_read_error_aborts_witness:
  "visits ''linux'' ''/opt/tool''
     (Entries [File ''README'', Dir ''bin'' (ReadErr (SysError ''permission denied'')),
               File ''brook'']) =
     Failed (SysError ''permission denied'') # [Found ''/opt/tool/brook''] \<and>
   searchExecutableFile ''linux'' ''/opt/tool''
     (Entries [File ''README'', Dir ''bin'' (ReadErr (SysError ''permission denied'')),
               File ''brook'']) = ([], Some (SysError ''permission denied'')) \<and>
   visits ''linux'' ''/opt/tool'' (Entries [File ''README'', Dir ''bin'' (Entries [])]) = [] \<and>
   searchExecutableFile ''linux'' ''/opt/tool''
     (Entries [File ''README'', Dir ''bin'' (Entries [])]) = ([], None)"
  using searchExecutableFile_read_error_aborts
          [of "''linux''" "''/opt/tool''"
              "Entries [File ''README'', Dir ''bin'' (ReadErr (SysError ''permission denied'')),
                        File ''brook'']"]
        searchExecutableFile_read_error_aborts
          [of "''linux''" "''/opt/tool''" "Entries [File ''README'', Dir ''bin'' (Entries [])]"]
  by (simp add: Join_def Clean_def Separator_def IsPathSeparator_def Let_def brookBinFile_def)

section \<open>Properties of main\<close>

lemma andThen_Some: "m = (t, Some x) \<Longrightarrow> andThen m f = (t @ fst (f x), snd (f x))"
  by (simp add: andThen_def split: prod.splits)

lemma andThen_None: "m = (t, None) \<Longrightarrow> andThen m f = (t, None)"
  by (simp add: andThen_def)

lemma andThen_eq_SomeD:
  "andThen m f = (t, Some y) \<Longrightarrow>
     \<exists>t1 x t2. m = (t1, Some x) \<and> f x = (t2, Some y) \<and> t = t1 @ t2"
  by (auto simp: andThen_def split: prod.splits option.splits)

lemmas run_defs = main_def startup_def beforeEnable_def andThen_def parseFlags_def findBinary_def
  downloadPac_def listenAndLoad_def serveAndEnable_def watchSetup_def orchestrate_def teardown_def
  brookGoroutine_def enableSystemProxy_def bufferAtCheck_def bufferAtString_def silent_def
  printsEarly_def
  printsLate_def reload_def Exists_def Join_def Clean_def Separator_def IsPathSeparator_def
  brookBinFile_def pacLocalPath_def defaultPAC_def fmtV_def Let_def

lemma parseFlags_Some: "parseFlags w = (t, Some u) \<Longrightarrow> t = []"
  by (auto simp: parseFlags_def split: if_splits)

lemma findBinary_Some: "findBinary w = (t, Some bin) \<Longrightarrow> t = []"
  by (auto simp: findBinary_def split: if_splits sum.splits prod.splits option.splits)

lemma downloadPac_Some: "downloadPac w = (t, Some u) \<Longrightarrow> list_all startup_action t"
  by (auto simp: downloadPac_def Let_def split: if_splits sum.splits prod.splits option.splits)

lemma listenAndLoad_Some: "listenAndLoad w = (t, Some r) \<Longrightarrow> t = [NetListen ''127.0.0.1:0'']"
  by (auto simp: listenAndLoad_def split: if_splits sum.splits prod.splits option.splits)

lemma beforeEnable_Some:
  assumes "beforeEnable w = (t, Some r)"
  shows "list_all startup_action t"
proof -
  from assms obtain t1 u t2 where p: "parseFlags w = (t1, Some u)"
    and r2: "andThen (findBinary w) (\<lambda>bin.
       andThen (downloadPac w) (\<lambda>opened.
       andThen (listenAndLoad w) (\<lambda>(addr, h). ([], Some (bin, opened, addr, h))))) = (t2, Some r)"
    and t: "t = t1 @ t2"
    unfolding beforeEnable_def by (blast dest: andThen_eq_SomeD)
  from r2 obtain t3 bin t4 where f: "findBinary w = (t3, Some bin)"
    and r3: "andThen (downloadPac w) (\<lambda>opened.
       andThen (listenAndLoad w) (\<lambda>(addr, h). ([], Some (bin, opened, addr, h)))) = (t4, Some r)"
    and t2: "t2 = t3 @ t4"
    by (blast dest: andThen_eq_SomeD)
  from r3 obtain t5 u' t6 where d: "downloadPac w = (t5, Some u')"
    and r4: "andThen (listenAndLoad w) (\<lambda>(addr, h). ([], Some (bin, u', addr, h))) = (t6, Some r)"
    and t4: "t4 = t5 @ t6"
    by (blast dest: andThen_eq_SomeD)
  from r4 obtain t7 x t8 where l: "listenAndLoad w = (t7, Some x)"
    and r5: "(\<lambda>(addr, h). ([], Some (bin, u', addr, h))) x = (t8, Some r)"
    and t6: "t6 = t7 @ t8"
    by (blast dest: andThen_eq_SomeD)
  from r5 have "t8 = []" by (cases x) simp
  with t t2 t4 t6 parseFlags_Some [OF p] findBinary_Some [OF f] listenAndLoad_Some [OF l]
  have "t = t5 @ [NetListen ''127.0.0.1:0'']" by simp
  with downloadPac_Some [OF d] show ?thesis by simp
qed

lemma serveAndEnable_Some:
  "serveAndEnable w bin addr = (t, Some u) \<Longrightarrow>
     t = [GoServe, Log ''Enable system proxy ...'',
          Start [bin, ''systemproxy'', ''--url'', ''http://'' @ addr @ ''/pac'']]"
  by (auto simp: serveAndEnable_def split: option.splits)

lemma watchSetup_Some: "watchSetup w = (t, Some e) \<Longrightarrow> t = [] \<and> e = None"
  by (auto simp: watchSetup_def Let_def split: option.splits)

lemma startup_Some:
  assumes "startup w = (t, Some l)"
  shows "list_all startup_action t \<and> mainErr l = None"
proof -
  from assms obtain t1 x t2 where b: "beforeEnable w = (t1, Some x)"
    and r2: "(\<lambda>(bin, opened, addr, h).
       andThen (serveAndEnable w bin addr) (\<lambda>_.
       andThen (watchSetup w) (\<lambda>e.
         ([], Some \<lparr>binPath = bin, bodyOpen = opened, lsAddr = addr, ph = h,
                    mainErr = e\<rparr>)))) x = (t2, Some l)"
    and t: "t = t1 @ t2"
    unfolding startup_def by (blast dest: andThen_eq_SomeD)
  obtain bin opened addr h where x: "x = (bin, opened, addr, h)" by (cases x) auto
  from r2 x obtain t3 u t4 where s: "serveAndEnable w bin addr = (t3, Some u)"
    and r3: "andThen (watchSetup w) (\<lambda>e.
         ([], Some \<lparr>binPath = bin, bodyOpen = opened, lsAddr = addr, ph = h,
                    mainErr = e\<rparr>)) = (t4, Some l)"
    and t2: "t2 = t3 @ t4"
    by (auto dest: andThen_eq_SomeD)
  from r3 obtain t5 e t6 where ws: "watchSetup w = (t5, Some e)"
    and r4: "([], Some \<lparr>binPath = bin, bodyOpen = opened, lsAddr = addr, ph = h,
                    mainErr = e\<rparr>) = (t6, Some l)"
    and t4: "t4 = t5 @ t6"
    by (blast dest: andThen_eq_SomeD)
  from watchSetup_Some [OF ws] r4 have l: "mainErr l = None" and "t5 = []" and "t6 = []" by auto
  with t t2 t4 serveAndEnable_Some [OF s]
  have "t = t1 @ [GoServe, Log ''Enable system proxy ...'',
          Start [bin, ''systemproxy'', ''--url'', ''http://'' @ addr @ ''/pac'']]" by simp
  with beforeEnable_Some [OF b] l show ?thesis by simp
qed

text \<open>
  Claim C9. When the flags are set, the binary is found and the download is tried
  (\<open>pac.txt\<close> is missing or \<open>-update\<close> is given), and \<open>http.Get\<close> succeeds but reading the body
  gives an error or no bytes at all, \<open>main\<close> ends in the same \<open>log.Fatalf\<close> in both cases,
  right after the request, and no file is written. With an empty body and no error
  the message ends in \<open><nil>\<close>.
\<close>

theorem download_failure_is_fatal:
  assumes "flagServer w \<noteq> []" and "flagPassword w \<noteq> []"
    and "findBinary w = (t, Some bin)"
    and "\<not> Exists (statPac w) \<or> flagUpdate w"
    and "httpGet w = Inr (dat, e)"
    and "e \<noteq> None \<or> dat = []"
  shows "main w = [Log (''Downloading pac file from '' @ pacLocalPath @ '' ...''),
                   HttpGet (if [] = flagPAC w then defaultPAC else flagPAC w),
                   Fatal (''Download pac file error: '' @ fmtV e)] \<and>
         (\<forall>p d. WriteFile p d \<notin> set (main w))"
proof -
  have p: "parseFlags w = ([], Some ())"
    using assms(1,2) by (auto simp: parseFlags_def)
  have f: "findBinary w = ([], Some bin)"
    using assms(3) findBinary_Some [OF assms(3)] by simp
  have d: "downloadPac w = ([Log (''Downloading pac file from '' @ pacLocalPath @ '' ...''),
                   HttpGet (if [] = flagPAC w then defaultPAC else flagPAC w),
                   Fatal (''Download pac file error: '' @ fmtV e)], None)"
    using assms(4,5,6) by (auto simp: downloadPac_def Let_def)
  have b: "beforeEnable w = ([Log (''Downloading pac file from '' @ pacLocalPath @ '' ...''),
                   HttpGet (if [] = flagPAC w then defaultPAC else flagPAC w),
                   Fatal (''Download pac file error: '' @ fmtV e)], None)"
    by (simp add: beforeEnable_def andThen_Some [OF p] andThen_Some [OF f] andThen_None [OF d])
  have s: "startup w = ([Log (''Downloading pac file from '' @ pacLocalPath @ '' ...''),
                   HttpGet (if [] = flagPAC w then defaultPAC else flagPAC w),
                   Fatal (''Download pac file error: '' @ fmtV e)], None)"
    by (simp add: startup_def andThen_None [OF b])
  have m: "main w = [Log (''Downloading pac file from '' @ pacLocalPath @ '' ...''),
                   HttpGet (if [] = flagPAC w then defaultPAC else flagPAC w),
                   Fatal (''Download pac file error: '' @ fmtV e)]"
    by (simp add: main_def andThen_None [OF s])
  show ?thesis unfolding m by simp
qed

theorem download_failure_is_fatal_witness:
  "main worldEmptyDownload =
     [Log ''Downloading pac file from ./pac.txt ...'',
      HttpGet ''https://blackwhite.txthinking.com/white.pac'',
      Fatal ''Download pac file error: <nil>''] \<and>
   (\<forall>p d. WriteFile p d \<notin> set (main worldEmptyDownload)) \<and>
   main worldReadError =
     [Log ''Downloading pac file from ./pac.txt ...'',
      HttpGet ''https://blackwhite.txthinking.com/white.pac'',
      Fatal ''Download pac file error: unexpected EOF''] \<and>
   (\<forall>p d. WriteFile p d \<notin> set (main worldReadError))"
proof -
  have f1: "findBinary worldEmptyDownload = ([], Some ''/opt/tool/brook'')"
    by (simp add: worldEmptyDownload_def world0_def run_defs)
  have f2: "findBinary worldReadError = ([], Some ''/opt/tool/brook'')"
    by (simp add: worldReadError_def world0_def run_defs)
  have a: "flagServer worldEmptyDownload \<noteq> []" "flagPassword worldEmptyDownload \<noteq> []"
    "\<not> Exists (statPac worldEmptyDownload) \<or> flagUpdate worldEmptyDownload"
    "httpGet worldEmptyDownload = Inr ([], None)" "None \<noteq> None \<or> [] = ([] :: bytes)"
    by (simp_all add: worldEmptyDownload_def world0_def Exists_def)
  have b: "flagServer worldReadError \<noteq> []" "flagPassword worldReadError \<noteq> []"
    "\<not> Exists (statPac worldReadError) \<or> flagUpdate worldReadError"
    "httpGet worldReadError = Inr (''function'', Some (SysError ''unexpected EOF''))"
    "Some (SysError ''unexpected EOF'') \<noteq> None \<or> ''function'' = []"
    by (simp_all add: worldReadError_def world0_def Exists_def)
  show ?thesis
    using download_failure_is_fatal [OF a(1,2) f1 a(3,4,5)]
          download_failure_is_fatal [OF b(1,2) f2 b(3,4,5)]
    by (simp add: fmtV_def pacLocalPath_def defaultPAC_def worldEmptyDownload_def
        worldReadError_def world0_def)
qed

text \<open>
  Claim C7, as the code has it. When the statements before it let the start-up reach
  \<open>enableSystemProxy\<close>, the toggle command starts, and output of it is already in the
  buffer when the function reads its length right after \<open>Start()\<close>, what the buffer holds
  becomes the error, \<open>main\<close> ends in \<open>log.Fatalf\<close> right after the call, and neither the file-watch
  goroutine nor the goroutine that starts the client and waits for it has been started.
  The goroutine that serves the listener has been: its \<open>go\<close> statement (line 196) comes
  before the call (line 211).
\<close>

theorem enable_output_aborts_startup:
  assumes "beforeEnable w = (t, Some (bin, opened, addr, h))"
    and "started (launch w [bin, ''systemproxy'', ''--url'', ''http://'' @ addr @ ''/pac'']) = None"
    and "bufferAtCheck (launch w [bin, ''systemproxy'', ''--url'', ''http://'' @ addr @ ''/pac''])
           \<noteq> []"
    and "bufferAtString (launch w [bin, ''systemproxy'', ''--url'', ''http://'' @ addr @ ''/pac''])
           = out"
  shows "main w = t @ [GoServe, Log ''Enable system proxy ...'',
                       Start [bin, ''systemproxy'', ''--url'', ''http://'' @ addr @ ''/pac''],
                       Fatal (''Enable system proxy error: '' @ out)] \<and>
         GoWatch \<notin> set (main w) \<and> GoChild \<notin> set (main w)"
proof -
  have e: "serveAndEnable w bin addr =
     ([GoServe, Log ''Enable system proxy ...'',
       Start [bin, ''systemproxy'', ''--url'', ''http://'' @ addr @ ''/pac''],
       Fatal (''Enable system proxy error: '' @ out)], None)"
    using assms(2,3,4) by (simp add: serveAndEnable_def enableSystemProxy_def Let_def)
  have m: "main w = t @ [GoServe, Log ''Enable system proxy ...'',
                       Start [bin, ''systemproxy'', ''--url'', ''http://'' @ addr @ ''/pac''],
                       Fatal (''Enable system proxy error: '' @ out)]"
  proof -
    have s: "startup w = (t @ [GoServe, Log ''Enable system proxy ...'',
                       Start [bin, ''systemproxy'', ''--url'', ''http://'' @ addr @ ''/pac''],
                       Fatal (''Enable system proxy error: '' @ out)], None)"
      by (simp add: startup_def andThen_Some [OF assms(1)] andThen_None [OF e])
    show ?thesis by (simp add: main_def andThen_None [OF s])
  qed
  have "list_all startup_action t" using beforeEnable_Some [OF assms(1)] .
  then have "GoWatch \<notin> set t \<and> GoChild \<notin> set t"
    by (auto simp: list_all_iff)
  with m show ?thesis by simp
qed

theorem enable_output_aborts_startup_witness:
  "beforeEnable worldEnableOutput =
     ([Log ''Downloading pac file from ./pac.txt ...'',
       HttpGet ''https://blackwhite.txthinking.com/white.pac'',
       WriteFile ''./pac.txt'' ''function FindProxyForURL'', NetListen ''127.0.0.1:0''],
      Some (''/opt/tool/brook'', True, ''127.0.0.1:40123'',
            \<lparr>pacData = ''function FindProxyForURL''\<rparr>)) \<and>
   started (launch worldEnableOutput
     [''/opt/tool/brook'', ''systemproxy'', ''--url'', ''http://127.0.0.1:40123/pac'']) = None \<and>
   bufferAtCheck (launch worldEnableOutput
     [''/opt/tool/brook'', ''systemproxy'', ''--url'', ''http://127.0.0.1:40123/pac'']) =
     ''flag provided but not defined'' \<and>
   main worldEnableOutput =
     [Log ''Downloading pac file from ./pac.txt ...'',
      HttpGet ''https://blackwhite.txthinking.com/white.pac'',
      WriteFile ''./pac.txt'' ''function FindProxyForURL'', NetListen ''127.0.0.1:0'',
      GoServe, Log ''Enable system proxy ...'',
      Start [''/opt/tool/brook'', ''systemproxy'', ''--url'', ''http://127.0.0.1:40123/pac''],
      Fatal ''Enable system proxy error: flag provided but not defined''] \<and>
   GoWatch \<notin> set (main worldEnableOutput) \<and> GoChild \<notin> set (main worldEnableOutput)"
proof -
  have b: "beforeEnable worldEnableOutput =
     ([Log ''Downloading pac file from ./pac.txt ...'',
       HttpGet ''https://blackwhite.txthinking.com/white.pac'',
       WriteFile ''./pac.txt'' ''function FindProxyForURL'', NetListen ''127.0.0.1:0''],
      Some (''/opt/tool/brook'', True, ''127.0.0.1:40123'',
            \<lparr>pacData = ''function FindProxyForURL''\<rparr>))"
    by (simp add: worldEnableOutput_def world0_def run_defs)
  have l: "started (launch worldEnableOutput
     [''/opt/tool/brook'', ''systemproxy'', ''--url'',
      ''http://'' @ ''127.0.0.1:40123'' @ ''/pac'']) = None"
    by (simp add: worldEnableOutput_def world0_def printsEarly_def)
  have c: "bufferAtCheck (launch worldEnableOutput
     [''/opt/tool/brook'', ''systemproxy'', ''--url'',
      ''http://'' @ ''127.0.0.1:40123'' @ ''/pac'']) \<noteq> []"
    by (simp add: worldEnableOutput_def world0_def printsEarly_def bufferAtCheck_def)
  have n: "bufferAtString (launch worldEnableOutput
     [''/opt/tool/brook'', ''systemproxy'', ''--url'',
      ''http://'' @ ''127.0.0.1:40123'' @ ''/pac'']) = ''flag provided but not defined''"
    by (simp add: worldEnableOutput_def world0_def printsEarly_def bufferAtString_def)
  have c': "bufferAtCheck (launch worldEnableOutput
     [''/opt/tool/brook'', ''systemproxy'', ''--url'', ''http://127.0.0.1:40123/pac'']) =
     ''flag provided but not defined''"
    by (simp add: worldEnableOutput_def world0_def printsEarly_def bufferAtCheck_def)
  show ?thesis
    using enable_output_aborts_startup [OF b l c n] b l c' by simp
qed

text \<open>
  Claim C7, as it is stated, asks that no worker has been started when the start-up
  aborts. In this world the toggle command starts and its output is in the buffer at
  the check; the run ends in \<open>log.Fatalf\<close>, and the server goroutine has been started
  before.
\<close>

theorem enable_output_counterexample:
  "bufferAtCheck (launch worldEnableOutput
     [''/opt/tool/brook'', ''systemproxy'', ''--url'', ''http://127.0.0.1:40123/pac'']) =
     ''flag provided but not defined'' \<and>
   last (main worldEnableOutput) =
     Fatal ''Enable system proxy error: flag provided but not defined'' \<and>
   GoServe \<in> set (main worldEnableOutput)"
  by (simp add: worldEnableOutput_def world0_def run_defs)

text \<open>
  When the same output has not arrived at the check, the start-up goes on: the watcher
  and the client goroutine are started, and nothing reports what the command printed.
\<close>

lemma late_output_startup_goes_on:
  "printed (launch worldEnableLate
     [''/opt/tool/brook'', ''systemproxy'', ''--url'', ''http://127.0.0.1:40123/pac'']) =
     ''flag provided but not defined'' \<and>
   GoWatch \<in> set (main worldEnableLate) \<and> GoChild \<in> set (main worldEnableLate) \<and>
   last (main worldEnableLate) = Return"
  by (simp add: worldEnableLate_def world0_def run_defs)

lemma startup_action_filter:
  "list_all startup_action t \<Longrightarrow>
     filter (\<lambda>a. a \<in> {SetClosed, CloseListener, Start [b, x, y]}) t = []"
proof (induction t)
  case Nil then show ?case by simp
next
  case (Cons a t) then show ?case by (cases a) auto
qed

lemma brookGoroutine_one: "\<exists>v. brookGoroutine e s wt = [v]"
  by (simp add: brookGoroutine_def)

lemma teardown_filter:
  "filter (\<lambda>a. a \<in> {SetClosed, CloseListener, Start [binPath l, ''systemproxy'', ''-r'']})
     (teardown w l) = [SetClosed, CloseListener, Start [binPath l, ''systemproxy'', ''-r'']]"
  by (simp add: teardown_def Let_def split: option.splits)

text \<open>The start-up of the concrete worlds.\<close>

lemma startup_world0:
  "startup world0 =
     ([Log ''Downloading pac file from ./pac.txt ...'',
       HttpGet ''https://blackwhite.txthinking.com/white.pac'',
       WriteFile ''./pac.txt'' ''function FindProxyForURL'', NetListen ''127.0.0.1:0'',
       GoServe, Log ''Enable system proxy ...'',
       Start [''/opt/tool/brook'', ''systemproxy'', ''--url'', ''http://127.0.0.1:40123/pac'']],
      Some \<lparr>binPath = ''/opt/tool/brook'', bodyOpen = True, lsAddr = ''127.0.0.1:40123'',
            ph = \<lparr>pacData = ''function FindProxyForURL''\<rparr>, mainErr = None\<rparr>)"
  by (simp add: world0_def run_defs)

lemma startup_worldChildDies: "startup worldChildDies = (fst (startup world0), snd (startup world0))"
  by (simp add: worldChildDies_def world0_def run_defs)

text \<open>
  Claim C4. In every run that reaches the final \<open>select\<close>, whichever case fires, \<open>main\<close>
  goes on with the same steps: lock the gate, set \<open>closed\<close>, unlock, close the listener,
  start the command that removes the system proxy. After a signal the steps before them
  are \<open>cancel()\<close> and then the receive of the child's notification; after the child's own
  exit, the receive and then \<open>cancel()\<close>. In the whole trace of \<open>main\<close> the flag is set,
  the listener closed and the removing command started once each, in this order.
\<close>

theorem shutdown_sequence_once:
  assumes "startup w = (t, Some l)"
  shows "(\<exists>v fin. main w =
            t @ [GoWatch, WatcherAdd pacLocalPath, GoChild, SignalNotify] @
            (case wakeSignal w of
               Some recvSig \<Rightarrow>
                 [Log (''Recv '' @ signalName recvSig @ '' signal, shutting down ...''), Cancel,
                  RecvBrookCh v]
             | None \<Rightarrow>
                 [RecvBrookCh v,
                  Log (''Brook occurs an error: '' @ fmtV v @ '' ('' @ childOut w @ '')''),
                  Cancel]) @
            [LockCloseMu, SetClosed, UnlockCloseMu, CloseListener,
             Log ''Disable system proxy ...'', Start [binPath l, ''systemproxy'', ''-r'']] @ fin) \<and>
         filter (\<lambda>a. a \<in> {SetClosed, CloseListener, Start [binPath l, ''systemproxy'', ''-r'']})
           (main w) = [SetClosed, CloseListener, Start [binPath l, ''systemproxy'', ''-r'']]"
proof -
  have m: "main w = t @ orchestrate w l"
    by (simp add: main_def andThen_Some [OF assms])
  obtain v where v: "brookGoroutine (mainErr l) (childStart w) (childWait w) = [v]"
    using brookGoroutine_one by blast
  have o: "orchestrate w l = [GoWatch, WatcherAdd pacLocalPath, GoChild, SignalNotify] @
            (case wakeSignal w of
               Some recvSig \<Rightarrow>
                 [Log (''Recv '' @ signalName recvSig @ '' signal, shutting down ...''), Cancel,
                  RecvBrookCh v]
             | None \<Rightarrow>
                 [RecvBrookCh v,
                  Log (''Brook occurs an error: '' @ fmtV v @ '' ('' @ childOut w @ '')''),
                  Cancel]) @ teardown w l"
    by (simp add: orchestrate_def v split: option.splits)
  have td: "\<exists>fin. teardown w l = [LockCloseMu, SetClosed, UnlockCloseMu, CloseListener,
             Log ''Disable system proxy ...'', Start [binPath l, ''systemproxy'', ''-r'']] @ fin"
    by (simp add: teardown_def Let_def)
  have one: "\<exists>v fin. main w =
            t @ [GoWatch, WatcherAdd pacLocalPath, GoChild, SignalNotify] @
            (case wakeSignal w of
               Some recvSig \<Rightarrow>
                 [Log (''Recv '' @ signalName recvSig @ '' signal, shutting down ...''), Cancel,
                  RecvBrookCh v]
             | None \<Rightarrow>
                 [RecvBrookCh v,
                  Log (''Brook occurs an error: '' @ fmtV v @ '' ('' @ childOut w @ '')''),
                  Cancel]) @
            [LockCloseMu, SetClosed, UnlockCloseMu, CloseListener,
             Log ''Disable system proxy ...'', Start [binPath l, ''systemproxy'', ''-r'']] @ fin"
    using td unfolding m o by auto
  have ft: "filter (\<lambda>a. a \<in> {SetClosed, CloseListener, Start [binPath l, ''systemproxy'', ''-r'']}) t = []"
    using startup_Some [OF assms] startup_action_filter by blast
  have two: "filter (\<lambda>a. a \<in> {SetClosed, CloseListener, Start [binPath l, ''systemproxy'', ''-r'']})
           (main w) = [SetClosed, CloseListener, Start [binPath l, ''systemproxy'', ''-r'']]"
    unfolding m o filter_append ft teardown_filter
    by (simp split: option.splits)
  from one two show ?thesis by blast
qed

theorem shutdown_sequence_once_witness:
  "main world0 =
     fst (startup world0) @
     [GoWatch, WatcherAdd ''./pac.txt'', GoChild, SignalNotify,
      Log ''Recv interrupt signal, shutting down ...'', Cancel,
      RecvBrookCh (Some (SysError ''signal: killed'')),
      LockCloseMu, SetClosed, UnlockCloseMu, CloseListener, Log ''Disable system proxy ...'',
      Start [''/opt/tool/brook'', ''systemproxy'', ''-r''],
      Log ''Bye ...'', WatcherClose, BodyClose, Return] \<and>
   main worldChildDies =
     fst (startup world0) @
     [GoWatch, WatcherAdd ''./pac.txt'', GoChild, SignalNotify,
      RecvBrookCh (Some (SysError ''exit status 1'')),
      Log ''Brook occurs an error: exit status 1 ()'', Cancel,
      LockCloseMu, SetClosed, UnlockCloseMu, CloseListener, Log ''Disable system proxy ...'',
      Start [''/opt/tool/brook'', ''systemproxy'', ''-r''],
      Log ''Bye ...'', WatcherClose, BodyClose, Return] \<and>
   filter (\<lambda>a. a \<in> {SetClosed, CloseListener, Start [''/opt/tool/brook'', ''systemproxy'', ''-r'']})
     (main world0) = [SetClosed, CloseListener, Start [''/opt/tool/brook'', ''systemproxy'', ''-r'']] \<and>
   filter (\<lambda>a. a \<in> {SetClosed, CloseListener, Start [''/opt/tool/brook'', ''systemproxy'', ''-r'']})
     (main worldChildDies) = [SetClosed, CloseListener, Start [''/opt/tool/brook'', ''systemproxy'', ''-r'']]"
proof -
  have m0: "main world0 =
     fst (startup world0) @
     [GoWatch, WatcherAdd ''./pac.txt'', GoChild, SignalNotify,
      Log ''Recv interrupt signal, shutting down ...'', Cancel,
      RecvBrookCh (Some (SysError ''signal: killed'')),
      LockCloseMu, SetClosed, UnlockCloseMu, CloseListener, Log ''Disable system proxy ...'',
      Start [''/opt/tool/brook'', ''systemproxy'', ''-r''],
      Log ''Bye ...'', WatcherClose, BodyClose, Return]"
    by (simp add: world0_def run_defs)
  have m1: "main worldChildDies =
     fst (startup world0) @
     [GoWatch, WatcherAdd ''./pac.txt'', GoChild, SignalNotify,
      RecvBrookCh (Some (SysError ''exit status 1'')),
      Log ''Brook occurs an error: exit status 1 ()'', Cancel,
      LockCloseMu, SetClosed, UnlockCloseMu, CloseListener, Log ''Disable system proxy ...'',
      Start [''/opt/tool/brook'', ''systemproxy'', ''-r''],
      Log ''Bye ...'', WatcherClose, BodyClose, Return]"
    by (simp add: worldChildDies_def world0_def run_defs)
  show ?thesis
    using shutdown_sequence_once [OF startup_world0]
          shutdown_sequence_once [OF startup_worldChildDies [unfolded startup_world0 fst_conv snd_conv]]
          m0 m1
    by simp
qed

text \<open>
  On every run that reaches the goroutine, the variable \<open>err\<close> it sends after a failed
  start is \<open>nil\<close>: what it sends is not \<open>startErr\<close>.
\<close>

lemma start_failure_sends_captured_err:
  assumes "startup w = (t, Some l)" and "childStart w = Some e"
  shows "brookGoroutine (mainErr l) (childStart w) (childWait w) = [None]"
  using startup_Some [OF assms(1)] assms(2) by (simp add: brookGoroutine_def)

text \<open>
  Claim C1 asks that the one value sent on \<open>brookCh\<close> is the start error when the client
  cannot be started. In this world \<open>Start()\<close> fails with a permission error; the
  goroutine sends one value, and the value is \<open>nil\<close>: \<open>main\<close> receives \<open>nil\<close> and logs it.
\<close>

theorem child_start_failure_sends_nil:
  "childStart worldChildStartFails =
     Some (SysError ''fork/exec /opt/tool/brook: permission denied'') \<and>
   map_option mainErr (snd (startup worldChildStartFails)) = Some None \<and>
   brookGoroutine None (childStart worldChildStartFails) (childWait worldChildStartFails) = [None] \<and>
   RecvBrookCh None \<in> set (main worldChildStartFails) \<and>
   Log ''Brook occurs an error: <nil> ()'' \<in> set (main worldChildStartFails)"
  by (simp add: worldChildStartFails_def world0_def run_defs)

section \<open>Properties of the watcher and the gate\<close>

lemma gate_inv_init: "gate_inv (gateInit l evs)"
  by (simp add: gate_inv_def gateInit_def)

lemma gate_inv_step:
  assumes "gate_inv s" and "step l a s = Some s'"
  shows "gate_inv s'"
  using assms
proof (cases a)
  case WLockStep
  with assms show ?thesis by (cases "mpc s") (auto simp: gate_inv_def split: if_splits)
next
  case WUnlockReturnStep
  with assms show ?thesis by (cases "mpc s") (auto simp: gate_inv_def split: if_splits)
next
  case WUnlockBreakStep
  with assms show ?thesis by (cases "mpc s") (auto simp: gate_inv_def split: if_splits)
next
  case WUnlockStep
  with assms show ?thesis by (cases "mpc s") (auto simp: gate_inv_def split: if_splits)
next
  case MLockStep
  with assms show ?thesis by (cases "wpc s") (auto simp: gate_inv_def split: if_splits)
next
  case MSetStep
  with assms show ?thesis by (cases "wpc s") (auto simp: gate_inv_def split: if_splits)
next
  case MUnlockStep
  with assms show ?thesis by (cases "wpc s") (auto simp: gate_inv_def split: if_splits)
qed (auto simp: gate_inv_def split: if_splits list.splits prod.splits option.splits)

lemma gate_inv_run: "gate_inv s \<Longrightarrow> run l as s = Some s' \<Longrightarrow> gate_inv s'"
proof (induction as arbitrary: s)
  case Nil then show ?case by simp
next
  case (Cons a as)
  then show ?case by (auto split: option.splits dest: gate_inv_step)
qed

lemma closed_step:
  assumes "gate_inv s" and "closed s" and "step l a s = Some s'"
  shows "closed s' \<and> handler s' = handler s \<and> acts s' = acts s"
  using assms
  by (cases a) (auto simp: gate_inv_def split: if_splits list.splits)

lemma closed_run:
  "gate_inv s \<Longrightarrow> closed s \<Longrightarrow> run l as s = Some s' \<Longrightarrow>
     closed s' \<and> handler s' = handler s \<and> acts s' = acts s"
proof (induction as arbitrary: s)
  case Nil then show ?case by simp
next
  case (Cons a as)
  from Cons.prems obtain s1 where s1: "step l a s = Some s1" and r: "run l as s1 = Some s'"
    by (auto split: option.splits)
  from closed_step [OF Cons.prems(1,2) s1] gate_inv_step [OF Cons.prems(1) s1] Cons.IH [OF _ _ r]
  show ?case by simp
qed

text \<open>
  Claim C3. In every state that a schedule reaches from the start, with any events
  queued: once \<open>closed\<close> is set, no later statement of any schedule changes the stored
  blob or adds a reload or a reapply to what the watcher has done. The watcher is
  between its check and the end of its reload and reapply only while it holds the
  gate's mutex, and \<open>main\<close> sets the flag only while it holds it, so the two never
  overlap.
\<close>

theorem closed_gate_blocks_reload:
  assumes "run l before (gateInit l evs) = Some s"
  shows "(closed s \<longrightarrow>
            (\<forall>after s'. run l after s = Some s' \<longrightarrow>
               pacData (handler s') = pacData (handler s) \<and> acts s' = acts s)) \<and>
         (holding (wpc s) \<longrightarrow> closeMu s = Some Watcher \<and> \<not> mholding (mpc s)) \<and>
         (mholding (mpc s) \<longrightarrow> closeMu s = Some Main \<and> \<not> holding (wpc s))"
proof -
  have i: "gate_inv s" using gate_inv_run [OF gate_inv_init assms] .
  have "closed s \<longrightarrow> (\<forall>after s'. run l after s = Some s' \<longrightarrow>
               pacData (handler s') = pacData (handler s) \<and> acts s' = acts s)"
    using closed_run [OF i] by auto
  moreover have "(holding (wpc s) \<longrightarrow> closeMu s = Some Watcher \<and> \<not> mholding (mpc s)) \<and>
         (mholding (mpc s) \<longrightarrow> closeMu s = Some Main \<and> \<not> holding (wpc s))"
    using i by (auto simp: gate_inv_def)
  ultimately show ?thesis by blast
qed

theorem closed_gate_blocks_reload_witness:
  "map_option closed (run locals0 closing (gateInit locals0 queued3)) = Some True \<and>
   map_option (\<lambda>s. pacData (handler s)) (run locals0 (closing @ late) (gateInit locals0 queued3)) = Some ''v0'' \<and>
   map_option acts (run locals0 (closing @ late) (gateInit locals0 queued3)) = Some [] \<and>
   map_option wpc (run locals0 (closing @ late) (gateInit locals0 queued3)) = Some WReturned"
proof -
  let ?s = "\<lparr>wpc = WLock, mpc = MClose, closeMu = None, closed = True, ctxDone = True,
             Events = [write_ev], handler = \<lparr>pacData = ''v0''\<rparr>, acts = []\<rparr>"
  let ?s' = "\<lparr>wpc = WReturned, mpc = MClose, closeMu = None, closed = True, ctxDone = True,
             Events = [write_ev], handler = \<lparr>pacData = ''v0''\<rparr>, acts = []\<rparr>"
  have r: "run locals0 closing (gateInit locals0 queued3) = Some ?s"
    by (simp add: closing_def queued3_def gateInit_def locals0_def write_ev_def Write_op_def)
  have r': "run locals0 late ?s = Some ?s'"
    by (simp add: late_def)
  have rr: "run locals0 (closing @ late) (gateInit locals0 queued3) = Some ?s'"
    by (simp add: closing_def late_def queued3_def gateInit_def locals0_def write_ev_def Write_op_def)
  show ?thesis
    using closed_gate_blocks_reload [OF r] r r' rr by simp
qed

text \<open>
  One write event, or two within one sleep, give one cycle, and no event is left.
\<close>

lemma bursts_of_one_and_two_reload_once:
  "map_option acts (run locals0 burst1 (gateInit locals0 [])) =
     Some [Replaced ''v1'',
           Start [''/opt/tool/brook'', ''systemproxy'', ''--url'',
                  ''http://127.0.0.1:40123/pac?ts=1700000000'']] \<and>
   map_option Events (run locals0 burst1 (gateInit locals0 [])) = Some [] \<and>
   map_option acts (run locals0 burst2 (gateInit locals0 [])) =
     Some [Replaced ''v1'',
           Start [''/opt/tool/brook'', ''systemproxy'', ''--url'',
                  ''http://127.0.0.1:40123/pac?ts=1700000000'']] \<and>
   map_option Events (run locals0 burst2 (gateInit locals0 [])) = Some []"
  by (simp add: burst1_def burst2_def gateInit_def locals0_def write_ev_def Write_op_def
      reload_def Itoa_def digits.simps digit_def)

text \<open>
  Claim C2 asks for one reload and one reapply for a burst of write events within one
  sleep. The inner \<open>select\<close> receives at most one pending event, so of three write events
  the first starts a cycle, the second is dropped and the third starts a second cycle:
  two blobs stored, two toggle commands started.
\<close>

theorem burst_of_three_reloads_twice:
  "map_option acts (run locals0 burst3 (gateInit locals0 [])) =
     Some [Replaced ''v1'',
           Start [''/opt/tool/brook'', ''systemproxy'', ''--url'',
                  ''http://127.0.0.1:40123/pac?ts=1700000000''],
           Replaced ''v2'',
           Start [''/opt/tool/brook'', ''systemproxy'', ''--url'',
                  ''http://127.0.0.1:40123/pac?ts=1700000001'']] \<and>
   map_option Events (run locals0 burst3 (gateInit locals0 [])) = Some [] \<and>
   map_option wpc (run locals0 burst3 (gateInit locals0 [])) = Some WSelect"
  by (simp add: burst3_def gateInit_def locals0_def write_ev_def Write_op_def reload_def Itoa_def digits.simps digit_def)

section \<open>Properties of the stored blob\<close>

lemma store_inv_init: "store_inv d0 (storeInit d0)"
  by (simp add: store_inv_def storeInit_def whole_def)

lemma tinv_free:
  "\<not> lockheld ts \<Longrightarrow> tinv d0 s ts \<Longrightarrow> set (completed s) \<subseteq> set (completed s') \<Longrightarrow>
     tinv d0 s' ts"
  by (cases ts) (auto simp: whole_def)

lemma store_inv_upd:
  assumes inv: "store_inv d0 s"
    and others: "\<And>u. u \<noteq> t \<Longrightarrow> \<not> lockheld (threads s u)"
    and held: "lockheld ts' \<longleftrightarrow> m' = Some t"
    and free: "m' = None \<or> m' = Some t"
    and grow: "set (completed s) \<subseteq> set c'"
    and mine: "tinv d0 (s\<lparr>mu := m', shared := sh', threads := (threads s)(t := ts'),
                          completed := c'\<rparr>) ts'"
    and rest: "m' = None \<longrightarrow> sh' = d0 \<or> sh' \<in> set c'"
  shows "store_inv d0 (s\<lparr>mu := m', shared := sh', threads := (threads s)(t := ts'),
                          completed := c'\<rparr>)"
proof -
  let ?s' = "s\<lparr>mu := m', shared := sh', threads := (threads s)(t := ts'), completed := c'\<rparr>"
  have 1: "\<forall>u. lockheld (threads ?s' u) \<longleftrightarrow> mu ?s' = Some u"
  proof
    fix u show "lockheld (threads ?s' u) \<longleftrightarrow> mu ?s' = Some u"
      using others [of u] held free by (cases "u = t") auto
  qed
  have 2: "\<forall>u. tinv d0 ?s' (threads ?s' u)"
  proof
    fix u show "tinv d0 ?s' (threads ?s' u)"
    proof (cases "u = t")
      case True
      with mine show ?thesis by simp
    next
      case False
      have "tinv d0 s (threads s u)" using inv by (simp add: store_inv_def)
      from tinv_free [OF others [OF False] this, of ?s'] grow False
      show ?thesis by simp
    qed
  qed
  have 3: "mu ?s' = None \<longrightarrow> whole d0 ?s' (shared ?s')"
    using rest by (simp add: whole_def)
  from 1 2 3 show ?thesis unfolding store_inv_def by blast
qed

lemma slice_eta: "\<lparr>ptr = ptr (x :: slice), len = len x, cap = cap x\<rparr> = x"
  by (cases x) simp

lemma tinv_same:
  "shared s' = shared s \<Longrightarrow> completed s' = completed s \<Longrightarrow> tinv d0 s' ts = tinv d0 s ts"
  by (cases ts) (auto simp: whole_def)

lemma inv_held: "store_inv d0 s \<Longrightarrow> lockheld (threads s t) \<longleftrightarrow> mu s = Some t"
  by (simp add: store_inv_def)

lemma inv_tinv: "store_inv d0 s \<Longrightarrow> tinv d0 s (threads s t)"
  by (simp add: store_inv_def)

lemma inv_whole: "store_inv d0 s \<Longrightarrow> mu s = None \<Longrightarrow> shared s = d0 \<or> shared s \<in> set (completed s)"
  by (simp add: store_inv_def whole_def)

lemma store_inv_local:
  assumes inv: "store_inv d0 s"
    and before: "\<not> lockheld (threads s t)"
    and after: "\<not> lockheld ts'"
    and mine: "tinv d0 s ts'"
  shows "store_inv d0 (s\<lparr>threads := (threads s)(t := ts')\<rparr>)"
proof -
  let ?s' = "s\<lparr>threads := (threads s)(t := ts')\<rparr>"
  have m: "mu s \<noteq> Some t" using before inv_held [OF inv, of t] by simp
  have 1: "\<forall>u. lockheld (threads ?s' u) \<longleftrightarrow> mu ?s' = Some u"
  proof
    fix u show "lockheld (threads ?s' u) \<longleftrightarrow> mu ?s' = Some u"
      using inv_held [OF inv, of u] after m by (cases "u = t") auto
  qed
  have 2: "\<forall>u. tinv d0 ?s' (threads ?s' u)"
  proof
    fix u
    have "tinv d0 s (threads ?s' u)"
      using inv_tinv [OF inv, of u] mine by (cases "u = t") auto
    then show "tinv d0 ?s' (threads ?s' u)"
      by (simp add: tinv_same [of ?s' s])
  qed
  have 3: "mu ?s' = None \<longrightarrow> whole d0 ?s' (shared ?s')"
    using inv by (simp add: store_inv_def whole_def)
  from 1 2 3 show ?thesis unfolding store_inv_def by blast
qed

lemma holder_others:
  assumes "store_inv d0 s" and "mu s = None \<or> mu s = Some t" and "u \<noteq> t"
  shows "\<not> lockheld (threads s u)"
  using inv_held [OF assms(1), of u] assms(2,3) by auto

lemma store_inv_step:
  assumes inv: "store_inv d0 s" and st: "sstep a s = Some s'"
  shows "store_inv d0 s'"
proof (cases a)
  case (CallReload t dat)
  with st have idle: "threads s t = Idle"
    and s': "s' = s\<lparr>threads := (threads s)(t := RelLock dat)\<rparr>"
    by (auto split: if_splits)
  show ?thesis unfolding s' by (rule store_inv_local [OF inv]) (simp_all add: idle)
next
  case (CallServe t)
  with st have idle: "threads s t = Idle"
    and s': "s' = s\<lparr>threads := (threads s)(t := SrvLock)\<rparr>"
    by (auto split: if_splits)
  show ?thesis unfolding s' by (rule store_inv_local [OF inv]) (simp_all add: idle)
next
  case (Next t)
  note a = Next
  show ?thesis
  proof (cases "threads s t")
    case Idle
    with st a show ?thesis by simp
  next
    case (RelLock dat)
    with st a have free: "mu s = None"
      and s': "s' = s\<lparr>mu := Some t, threads := (threads s)(t := RelPtr dat)\<rparr>"
      by (auto split: if_splits)
    have "store_inv d0 (s\<lparr>mu := Some t, shared := shared s,
             threads := (threads s)(t := RelPtr dat), completed := completed s\<rparr>)"
      using inv_whole [OF inv free]
      by (intro store_inv_upd [OF inv] holder_others [OF inv]) (simp_all add: free whole_def)
    then show ?thesis by (simp add: s')
  next
    case (RelPtr dat)
    with st a have s': "s' = s\<lparr>shared := (shared s)\<lparr>ptr := ptr dat\<rparr>,
                                threads := (threads s)(t := RelLen dat)\<rparr>"
      by auto
    have m: "mu s = Some t" using inv_held [OF inv, of t] RelPtr by simp
    have "store_inv d0 (s\<lparr>mu := mu s, shared := (shared s)\<lparr>ptr := ptr dat\<rparr>,
             threads := (threads s)(t := RelLen dat), completed := completed s\<rparr>)"
      by (intro store_inv_upd [OF inv] holder_others [OF inv]) (simp_all add: m)
    then show ?thesis by (simp add: s')
  next
    case (RelLen dat)
    with st a have s': "s' = s\<lparr>shared := (shared s)\<lparr>len := len dat\<rparr>,
                                threads := (threads s)(t := RelCap dat)\<rparr>"
      by auto
    have m: "mu s = Some t" using inv_held [OF inv, of t] RelLen by simp
    have "store_inv d0 (s\<lparr>mu := mu s, shared := (shared s)\<lparr>len := len dat\<rparr>,
             threads := (threads s)(t := RelCap dat), completed := completed s\<rparr>)"
      using inv_tinv [OF inv, of t] RelLen
      by (intro store_inv_upd [OF inv] holder_others [OF inv]) (simp_all add: m)
    then show ?thesis by (simp add: s')
  next
    case (RelCap dat)
    with st a have s': "s' = s\<lparr>shared := (shared s)\<lparr>cap := cap dat\<rparr>,
                                threads := (threads s)(t := RelUnlock dat)\<rparr>"
      by auto
    have m: "mu s = Some t" using inv_held [OF inv, of t] RelCap by simp
    have "store_inv d0 (s\<lparr>mu := mu s, shared := (shared s)\<lparr>cap := cap dat\<rparr>,
             threads := (threads s)(t := RelUnlock dat), completed := completed s\<rparr>)"
      using inv_tinv [OF inv, of t] RelCap
      by (intro store_inv_upd [OF inv] holder_others [OF inv]) (simp_all add: m)
    then show ?thesis by (simp add: s')
  next
    case (RelUnlock dat)
    with st a have s': "s' = s\<lparr>mu := None, threads := (threads s)(t := Idle),
                                completed := completed s @ [dat]\<rparr>"
      by auto
    have m: "mu s = Some t" using inv_held [OF inv, of t] RelUnlock by simp
    have "store_inv d0 (s\<lparr>mu := None, shared := shared s,
             threads := (threads s)(t := Idle), completed := completed s @ [dat]\<rparr>)"
      using inv_tinv [OF inv, of t] RelUnlock
      by (intro store_inv_upd [OF inv] holder_others [OF inv]) (auto simp add: m)
    then show ?thesis by (simp add: s')
  next
    case SrvLock
    with st a have free: "mu s = None"
      and s': "s' = s\<lparr>mu := Some t, threads := (threads s)(t := SrvPtr)\<rparr>"
      by (auto split: if_splits)
    have "store_inv d0 (s\<lparr>mu := Some t, shared := shared s,
             threads := (threads s)(t := SrvPtr), completed := completed s\<rparr>)"
      using inv_whole [OF inv free]
      by (intro store_inv_upd [OF inv] holder_others [OF inv]) (simp_all add: free whole_def)
    then show ?thesis by (simp add: s')
  next
    case SrvPtr
    with st a have s': "s' = s\<lparr>threads := (threads s)(t := SrvLen (ptr (shared s)))\<rparr>"
      by auto
    have m: "mu s = Some t" using inv_held [OF inv, of t] SrvPtr by simp
    have "store_inv d0 (s\<lparr>mu := mu s, shared := shared s,
             threads := (threads s)(t := SrvLen (ptr (shared s))), completed := completed s\<rparr>)"
      using inv_tinv [OF inv, of t] SrvPtr
      by (intro store_inv_upd [OF inv] holder_others [OF inv]) (simp_all add: m whole_def)
    then show ?thesis by (simp add: s')
  next
    case (SrvLen p)
    with st a have s': "s' = s\<lparr>threads := (threads s)(t := SrvCap p (len (shared s)))\<rparr>"
      by auto
    have m: "mu s = Some t" using inv_held [OF inv, of t] SrvLen by simp
    have "store_inv d0 (s\<lparr>mu := mu s, shared := shared s,
             threads := (threads s)(t := SrvCap p (len (shared s))), completed := completed s\<rparr>)"
      using inv_tinv [OF inv, of t] SrvLen
      by (intro store_inv_upd [OF inv] holder_others [OF inv]) (simp_all add: m whole_def)
    then show ?thesis by (simp add: s')
  next
    case (SrvCap p n)
    with st a have s': "s' = s\<lparr>threads := (threads s)
                                (t := SrvUnlock \<lparr>ptr = p, len = n, cap = cap (shared s)\<rparr>)\<rparr>"
      by auto
    have m: "mu s = Some t" using inv_held [OF inv, of t] SrvCap by simp
    have "store_inv d0 (s\<lparr>mu := mu s, shared := shared s,
             threads := (threads s)(t := SrvUnlock \<lparr>ptr = p, len = n, cap = cap (shared s)\<rparr>),
             completed := completed s\<rparr>)"
      using inv_tinv [OF inv, of t] SrvCap
      by (intro store_inv_upd [OF inv] holder_others [OF inv]) (simp_all add: m whole_def slice_eta)
    then show ?thesis by (simp add: s')
  next
    case (SrvUnlock dat)
    with st a have s': "s' = s\<lparr>mu := None, threads := (threads s)(t := SrvWrite dat)\<rparr>"
      by auto
    have m: "mu s = Some t" using inv_held [OF inv, of t] SrvUnlock by simp
    have "store_inv d0 (s\<lparr>mu := None, shared := shared s,
             threads := (threads s)(t := SrvWrite dat), completed := completed s\<rparr>)"
      using inv_tinv [OF inv, of t] SrvUnlock
      by (intro store_inv_upd [OF inv] holder_others [OF inv]) (auto simp add: m whole_def)
    then show ?thesis by (simp add: s')
  next
    case (SrvWrite dat)
    with st a have s': "s' = s\<lparr>threads := (threads s)(t := Idle)\<rparr>"
      by auto
    show ?thesis unfolding s'
      using SrvWrite by (intro store_inv_local [OF inv]) simp_all
  qed
qed

lemma store_inv_run: "store_inv d0 s \<Longrightarrow> srun as s = Some s' \<Longrightarrow> store_inv d0 s'"
proof (induction as arbitrary: s)
  case Nil then show ?case by simp
next
  case (Cons a as)
  then show ?case by (auto split: option.splits dest: store_inv_step)
qed

text \<open>
  Claim C8. In every state that a schedule of any number of reloading and serving
  goroutines reaches, the slice a handler has copied and is about to write to the
  response is the first value or the argument of a \<open>reload\<close> that has completed, word
  for word, and so are the bytes it stands for: never the pointer of one blob with the
  length of another.
\<close>

theorem snapshot_never_torn:
  assumes "srun as (storeInit d0) = Some s"
    and "threads s t = SrvWrite dat"
  shows "(dat = d0 \<or> dat \<in> set (completed s)) \<and>
         (contents mem dat = contents mem d0 \<or>
          contents mem dat \<in> contents mem ` set (completed s))"
proof -
  have "dat = d0 \<or> dat \<in> set (completed s)"
    using inv_tinv [OF store_inv_run [OF store_inv_init assms(1)], of t] assms(2)
    by (simp add: whole_def)
  then show ?thesis by auto
qed

theorem snapshot_never_torn_witness:
  "(\<exists>s. srun storeFirst (storeInit slice0) = Some s \<and>
        threads s 1 = SrvWrite slice1 \<and>
        completed s = [slice1] \<and>
        (slice1 = slice0 \<or> slice1 \<in> set (completed s))) \<and>
   (\<exists>s. srun serveFirst (storeInit slice0) = Some s \<and>
        threads s 1 = SrvWrite slice0 \<and>
        threads s 0 = RelCap slice1 \<and>
        shared s = \<lparr>ptr = 8192, len = 80, cap = 512\<rparr> \<and>
        completed s = [] \<and>
        (slice0 = slice0 \<or> slice0 \<in> set (completed s)))"
proof -
  obtain s where r: "srun storeFirst (storeInit slice0) = Some s"
    and t: "threads s 1 = SrvWrite slice1" and c: "completed s = [slice1]"
    by (simp add: storeFirst_def storeInit_def slice_eta)
  obtain s' where r': "srun serveFirst (storeInit slice0) = Some s'"
    and t': "threads s' 1 = SrvWrite slice0" and w': "threads s' 0 = RelCap slice1"
    and m': "shared s' = \<lparr>ptr = 8192, len = 80, cap = 512\<rparr>" and c': "completed s' = []"
    by (simp add: serveFirst_def storeInit_def slice_eta slice0_def slice1_def)
  from snapshot_never_torn [OF r t] snapshot_never_torn [OF r' t'] r t c r' t' w' m' c'
  show ?thesis by blast
qed

end
